theory Spec2Isabelle
  imports Complex_Main
begin

section \<open>LuluTracker: the background service worker (background.js)\<close>

text \<open>
  A shallow embedding of the product-monitoring engine of \<^verbatim>\<open>src/background.js\<close>:
  the extractor \<^verbatim>\<open>parseProductHtml\<close>, the diff \<^verbatim>\<open>detectChanges\<close>, the
  markdown resolver \<^verbatim>\<open>checkMarkdownTransition\<close>, the orchestrator
  \<^verbatim>\<open>checkAllProducts\<close> and the badge \<^verbatim>\<open>updateBadge\<close>.

  Conventions of the embedding.
  \<^item> JavaScript strings are \<open>string\<close>; the empty string stands for every falsy string
    value (\<^verbatim>\<open>''\<close>, \<^verbatim>\<open>undefined\<close>, \<^verbatim>\<open>null\<close>) of a field the code only tests for
    truthiness.
  \<^item> A JavaScript number that the code only tests, compares and stores is a \<open>rat\<close>;
    \<open>None\<close> stands for \<^verbatim>\<open>null\<close> and for \<^verbatim>\<open>NaN\<close> (both falsy, and never equal to a price).
  \<^item> The text of a fetched page is observed by the code only through regular-expression
    matches, \<^verbatim>\<open>JSON.parse\<close> and \<^verbatim>\<open>includes\<close>; a page is the record of those
    observations. A payload that parses is taken at the shape the storefront serves, so the
    \<^verbatim>\<open>catch\<close> blocks of the extractor are reached from \<^verbatim>\<open>JSON.parse\<close> only.
  \<^item> Exceptions are values: the body of the orchestrator's loop returns \<open>error + product\<close>.
\<close>

subsection \<open>String helpers (the methods of \<^verbatim>\<open>String.prototype\<close> the code calls)\<close>

definition startsWith :: "string \<Rightarrow> string \<Rightarrow> bool" where
  "startsWith s pre = (take (length pre) s = pre)"

definition endsWith :: "string \<Rightarrow> string \<Rightarrow> bool" where
  "endsWith s suf = (length suf \<le> length s \<and> drop (length s - length suf) s = suf)"

fun includesStr :: "string \<Rightarrow> string \<Rightarrow> bool" where
  "includesStr [] sub = (sub = [])"
| "includesStr (c # cs) sub = (startsWith (c # cs) sub \<or> includesStr cs sub)"

text \<open>\<^verbatim>\<open>s.split(d)\<close> for a one-character separator.\<close>

fun splitOn :: "char \<Rightarrow> string \<Rightarrow> string list" where
  "splitOn d [] = [[]]"
| "splitOn d (c # cs) =
     (if c = d then [] # splitOn d cs
      else (case splitOn d cs of [] \<Rightarrow> [[c]] | w # ws \<Rightarrow> (c # w) # ws))"

text \<open>\<^verbatim>\<open>url.split('?')[0]\<close>: the text before the first question mark.\<close>

definition baseUrlOf :: "string \<Rightarrow> string" where
  "baseUrlOf u = takeWhile (\<lambda>c. c \<noteq> CHR ''?'') u"

text \<open>\<^verbatim>\<open>s.replace(/(\/_\/)/, '-MD$1')\<close>: the first \<^verbatim>\<open>/_/\<close> gets \<^verbatim>\<open>-MD\<close> in front of it.\<close>

fun insertMD :: "string \<Rightarrow> string" where
  "insertMD [] = []"
| "insertMD (c # cs) =
     (if startsWith (c # cs) ''/_/'' then ''-MD'' @ (c # cs) else c # insertMD cs)"

subsection \<open>getColorCodeFromUrl\<close>

text \<open>
  \<^verbatim>\<open>new URL(url).search\<close> is the text between the first \<^verbatim>\<open>?\<close> and the fragment;
  \<^verbatim>\<open>URLSearchParams\<close> splits it at \<^verbatim>\<open>&\<close> and each piece at its first \<^verbatim>\<open>=\<close>.
  Tracked URLs are \<^verbatim>\<open>window.location.href\<close> values, so \<^verbatim>\<open>new URL\<close> does not throw on
  them; percent-decoding is left out (colour codes are digits).
\<close>

definition searchParams :: "string \<Rightarrow> (string \<times> string) list" where
  "searchParams u =
     (let noFragment = takeWhile (\<lambda>c. c \<noteq> CHR ''#'') u;
          search = drop 1 (dropWhile (\<lambda>c. c \<noteq> CHR ''?'') noFragment)
      in map (\<lambda>kv. (takeWhile (\<lambda>c. c \<noteq> CHR ''='') kv,
                      drop 1 (dropWhile (\<lambda>c. c \<noteq> CHR ''='') kv)))
           (filter (\<lambda>kv. kv \<noteq> []) (splitOn CHR ''&'' search)))"

definition getColorCodeFromUrl :: "string \<Rightarrow> string option" where
  "getColorCodeFromUrl u =
     (let params = searchParams u in
      case map_of params ''color'' of
        Some usColor \<Rightarrow>
          if usColor \<noteq> [] then Some usColor
          else map_option snd
                 (find (\<lambda>(k, v). startsWith k ''dwvar_'' \<and> endsWith k ''_color'') params)
      | None \<Rightarrow>
          map_option snd
            (find (\<lambda>(k, v). startsWith k ''dwvar_'' \<and> endsWith k ''_color'') params))"

subsection \<open>Data model\<close>

record colorEntry =
  code :: string
  colorName :: string

text \<open>
  A tracked product, as stored under \<^verbatim>\<open>trackedProducts\<close>. \<open>availableColors\<close> is
  \<open>None\<close> when the stored item has no such array; an array, also the empty one, is truthy.
\<close>

record product =
  productId :: string
  color :: string
  size :: string
  name :: string
  productLine :: string
  url :: string
  region :: string
  image :: string
  trackNewColors :: bool
  addedAt :: int
  currentPrice :: "rat option"
  originalPrice :: "rat option"
  onSale :: bool
  stockStatus :: string
  availableColors :: "colorEntry list option"
  markdownUrl :: "string option"
  lastChecked :: "int option"
  lastChange :: "(string \<times> int) option"

text \<open>The \<^verbatim>\<open>result\<close> of \<^verbatim>\<open>parseProductHtml\<close>, called \<^verbatim>\<open>newData\<close> by its callers.\<close>

record snapshot =
  nd_currentPrice :: "rat option"
  nd_originalPrice :: "rat option"
  nd_onSale :: bool
  nd_stockStatus :: string
  nd_availableColors :: "colorEntry list"

text \<open>\<^verbatim>\<open>salePrice || '?'\<close>: a price of the markdown event is a number or the sentinel.\<close>

datatype mdPrice = Known rat | Unknown

datatype change =
    StatusChange string string
  | PriceChange rat rat
  | WentOnSale
  | NewColor string
  | MovedToMarkdown mdPrice mdPrice

fun changeType :: "change \<Rightarrow> string" where
  "changeType (StatusChange f t) = ''status_change''"
| "changeType (PriceChange f t) = ''price_change''"
| "changeType WentOnSale = ''went_on_sale''"
| "changeType (NewColor c) = ''new_color''"
| "changeType (MovedToMarkdown s l) = ''moved_to_markdown''"

text \<open>Truthiness of a number-or-null: \<^verbatim>\<open>null\<close>, \<^verbatim>\<open>NaN\<close> and \<^verbatim>\<open>0\<close> are falsy.\<close>

fun truthyNum :: "rat option \<Rightarrow> bool" where
  "truthyNum None = False"
| "truthyNum (Some r) = (r \<noteq> 0)"

subsection \<open>detectChanges\<close>

definition detectChanges :: "product \<Rightarrow> snapshot \<Rightarrow> change list" where
  "detectChanges oldProduct newData =
     (if stockStatus oldProduct \<noteq> nd_stockStatus newData
      then [StatusChange (stockStatus oldProduct) (nd_stockStatus newData)] else [])
     @ (case (currentPrice oldProduct, nd_currentPrice newData) of
          (Some f, Some t) \<Rightarrow> if f \<noteq> 0 \<and> t \<noteq> 0 \<and> f \<noteq> t then [PriceChange f t] else []
        | _ \<Rightarrow> [])
     @ (if \<not> onSale oldProduct \<and> nd_onSale newData then [WentOnSale] else [])
     @ (case availableColors oldProduct of
          Some oldColors \<Rightarrow>
            if trackNewColors oldProduct
            then map (\<lambda>newColor. NewColor (colorName newColor))
                   (filter (\<lambda>newColor. code newColor \<notin> set (map code oldColors))
                      (nd_availableColors newData))
            else []
        | None \<Rightarrow> [])"

subsection \<open>updateBadge\<close>

record badge =
  badgeText :: "nat option"
  badgeColor :: string

definition stockAlerts :: "product list \<Rightarrow> nat" where
  "stockAlerts trackedProducts =
     length (filter (\<lambda>p. stockStatus p = ''low_stock'' \<or> stockStatus p = ''sold_out'')
               trackedProducts)"

definition saleAlerts :: "product list \<Rightarrow> nat" where
  "saleAlerts trackedProducts = length (filter onSale trackedProducts)"

definition alertCount :: "product list \<Rightarrow> nat" where
  "alertCount trackedProducts = stockAlerts trackedProducts + saleAlerts trackedProducts"

text \<open>
  \<open>badgeText = None\<close> is the cleared badge (\<^verbatim>\<open>text: ''\<close>); the colour is only set with a
  count.
\<close>

definition updateBadge :: "product list \<Rightarrow> badge \<Rightarrow> badge" where
  "updateBadge trackedProducts b =
     (if alertCount trackedProducts > 0
      then \<lparr>badgeText = Some (alertCount trackedProducts),
            badgeColor = (if stockAlerts trackedProducts > 0 then ''#d31334'' else ''#1565c0'')\<rparr>
      else b\<lparr>badgeText := None\<rparr>)"

subsection \<open>The fetched page\<close>

text \<open>
  A raw JSON price field, as far as the code reads it: by truthiness and through
  \<^verbatim>\<open>parseFloat\<close>. \<open>Str x\<close> is a non-empty string that \<^verbatim>\<open>parseFloat\<close> reads as \<open>x\<close>
  (\<open>None\<close> is \<^verbatim>\<open>NaN\<close>); the empty string and a missing field are \<open>Undefined\<close>.
\<close>

datatype jsval = Undefined | Num rat | Str "rat option"

fun truthy :: "jsval \<Rightarrow> bool" where
  "truthy Undefined = False"
| "truthy (Num r) = (r \<noteq> 0)"
| "truthy (Str x) = True"

fun parseFloat :: "jsval \<Rightarrow> rat option" where
  "parseFloat Undefined = None"
| "parseFloat (Num r) = Some r"
| "parseFloat (Str x) = x"

text \<open>\<^verbatim>\<open>x || null\<close> on a number.\<close>

definition orNull :: "rat option \<Rightarrow> rat option" where
  "orNull x = (if truthyNum x then x else None)"

record skuPrice =
  listPrice :: jsval
  salePrice :: jsval

record sku =
  skuColorCode :: "string option"
  skuSize :: string
  available :: bool
  price :: "skuPrice option"

record productSummary =
  isSoldOut :: bool
  summaryProductId :: string
  unifiedId :: string
  parentCategoryUnifiedId :: string

record colorDriverEntry =
  cdColor :: string
  cdSizes :: "string list"

text \<open>\<^verbatim>\<open>q?.state?.data\<close> of one dehydrated query.\<close>

record queryData =
  productSummary :: "productSummary option"
  skus :: "sku list option"
  colors :: "colorEntry list option"
  colorDriver :: "colorDriverEntry list option"

record offer =
  offerPrice :: jsval
  availability :: string

record variant =
  vColor :: string
  vSize :: string
  offers :: "offer option"

record ldJson =
  ldType :: string
  hasVariant :: "variant list"

datatype 'a parsed = ParseError | Parsed 'a

text \<open>
  What the code observes of the HTML text: the \<^verbatim>\<open>__NEXT_DATA__\<close> script (absent, or its
  \<^verbatim>\<open>JSON.parse\<close> with the \<^verbatim>\<open>queries\<close> array, each entry its \<^verbatim>\<open>state.data\<close>), the
  \<^verbatim>\<open>application/ld+json\<close> scripts in document order, the substring tests of the text
  fallback, the \<^verbatim>\<open>stock-avail-msg\<close> match, and \<^verbatim>\<open>parseFloat\<close> of the first price match.
\<close>

record page =
  nextDataMatch :: "queryData option list parsed option"
  ldMatches :: "ldJson parsed list"
  hasLowStockWarningId :: bool
  hasHurryOnlyAFewLeft :: bool
  hasOnlyAFewLeft :: bool
  hasAlmostGone :: bool
  hasSoldOutText :: bool
  hasOutOfStockText :: bool
  visibleLowStock :: bool
  priceMatch :: "rat option"

subsection \<open>parseProductHtml\<close>

text \<open>The first query whose data has both \<^verbatim>\<open>productSummary\<close> and \<^verbatim>\<open>skus\<close>.\<close>

fun findQueryData :: "queryData option list \<Rightarrow> queryData option" where
  "findQueryData [] = None"
| "findQueryData (None # qs) = findQueryData qs"
| "findQueryData (Some d # qs) =
     (if productSummary d \<noteq> None \<and> skus d \<noteq> None then Some d else findQueryData qs)"

definition sizeSelected :: "product \<Rightarrow> bool" where
  "sizeSelected p = (size p \<noteq> [] \<and> size p \<noteq> ''Not selected'')"

definition skuMatches :: "product \<Rightarrow> string \<Rightarrow> sku \<Rightarrow> bool" where
  "skuMatches p colorCode s =
     (skuColorCode s = Some colorCode \<and> (\<not> sizeSelected p \<or> skuSize s = size p))"

text \<open>Lines 291 to 305: the price of the matching SKU.\<close>

definition skuListPrice :: "skuPrice \<Rightarrow> rat option" where
  "skuListPrice pr = orNull (parseFloat (listPrice pr))"

definition skuSalePrice :: "skuPrice \<Rightarrow> rat option" where
  "skuSalePrice pr = (if truthy (salePrice pr) then parseFloat (salePrice pr) else None)"

definition realPriceDrop :: "rat option \<Rightarrow> rat option \<Rightarrow> bool" where
  "realPriceDrop sale list =
     (case (sale, list) of
        (Some s, Some l) \<Rightarrow> s \<noteq> 0 \<and> l \<noteq> 0 \<and> s < l
      | _ \<Rightarrow> False)"

definition applySkuPrice :: "skuPrice \<Rightarrow> snapshot \<Rightarrow> snapshot" where
  "applySkuPrice pr r =
     (let r1 = r\<lparr>nd_currentPrice := skuListPrice pr\<rparr> in
      if realPriceDrop (skuSalePrice pr) (skuListPrice pr)
      then r1\<lparr>nd_originalPrice := skuListPrice pr,
              nd_currentPrice := skuSalePrice pr,
              nd_onSale := True\<rparr>
      else r1)"

definition applyMatchingSku :: "sku \<Rightarrow> snapshot \<Rightarrow> snapshot" where
  "applyMatchingSku m r =
     (let r1 = (case price m of Some pr \<Rightarrow> applySkuPrice pr r | None \<Rightarrow> r) in
      if \<not> available m then r1\<lparr>nd_stockStatus := ''sold_out''\<rparr> else r1)"

text \<open>Lines 317 to 323: no SKU matches, the colour's size list decides.\<close>

definition applyColorDriver :: "product \<Rightarrow> string \<Rightarrow> queryData \<Rightarrow> snapshot \<Rightarrow> snapshot" where
  "applyColorDriver p colorCode qd r =
     (if sizeSelected p
      then (case colorDriver qd of
              None \<Rightarrow> r
            | Some cds \<Rightarrow>
                (case find (\<lambda>cd. cdColor cd = colorCode) cds of
                   None \<Rightarrow> r
                 | Some cd \<Rightarrow>
                     if size p \<notin> set (cdSizes cd) then r\<lparr>nd_stockStatus := ''sold_out''\<rparr>
                     else r))
      else r)"

text \<open>Lines 264 to 330: strategy 1, the \<^verbatim>\<open>__NEXT_DATA__\<close> payload.\<close>

definition applyNextData :: "product \<Rightarrow> queryData \<Rightarrow> snapshot \<Rightarrow> snapshot" where
  "applyNextData p qd r =
     (let r1 = (if (case productSummary qd of Some ps \<Rightarrow> isSoldOut ps | None \<Rightarrow> False)
                then r\<lparr>nd_stockStatus := ''sold_out''\<rparr> else r);
          r2 = (case colors qd of
                  Some cs \<Rightarrow> r1\<lparr>nd_availableColors := cs\<rparr>
                | None \<Rightarrow> r1);
          r3 = (case (getColorCodeFromUrl (url p), skus qd) of
                  (Some colorCode, Some sks) \<Rightarrow>
                    if colorCode \<noteq> []
                    then (case find (skuMatches p colorCode) sks of
                            Some m \<Rightarrow> applyMatchingSku m r2
                          | None \<Rightarrow> applyColorDriver p colorCode qd r2)
                    else r2
                | _ \<Rightarrow> r2)
      in case skus qd of
           Some (s0 # rest) \<Rightarrow>
             if \<not> truthyNum (nd_currentPrice r3)
             then r3\<lparr>nd_currentPrice :=
                       orNull (parseFloat (case price s0 of Some pr \<Rightarrow> listPrice pr
                                           | None \<Rightarrow> Undefined))\<rparr>
             else r3
         | _ \<Rightarrow> r3)"

text \<open>Lines 350 to 359: the colours of the variants, first occurrence of each name.\<close>

fun colorMapValues :: "variant list \<Rightarrow> string list \<Rightarrow> colorEntry list" where
  "colorMapValues [] seen = []"
| "colorMapValues (v # vs) seen =
     (if vColor v \<noteq> [] \<and> vColor v \<notin> set seen
      then \<lparr>code = vColor v, colorName = vColor v\<rparr> # colorMapValues vs (vColor v # seen)
      else colorMapValues vs seen)"

definition outOfStock :: "variant \<Rightarrow> bool" where
  "outOfStock v =
     includesStr (case offers v of Some off \<Rightarrow> availability off | None \<Rightarrow> []) ''OutOfStock''"

text \<open>Lines 371 to 394: price and stock from the variants of the tracked colour name.\<close>

definition applyColorVariants :: "product \<Rightarrow> variant list \<Rightarrow> snapshot \<Rightarrow> snapshot" where
  "applyColorVariants p colorVariants r =
     (case colorVariants of
        [] \<Rightarrow> r
      | v0 # rest \<Rightarrow>
          (let r1 = (case parseFloat (case offers v0 of Some off \<Rightarrow> offerPrice off
                                      | None \<Rightarrow> Undefined) of
                       Some pr \<Rightarrow> if pr > 0 then r\<lparr>nd_currentPrice := Some pr\<rparr> else r
                     | None \<Rightarrow> r);
               r2 = (if sizeSelected p
                     then (case find (\<lambda>v. vSize v = size p) colorVariants of
                             Some sizeMatch \<Rightarrow>
                               if outOfStock sizeMatch then r1\<lparr>nd_stockStatus := ''sold_out''\<rparr>
                               else r1
                           | None \<Rightarrow> r1)
                     else r1)
           in if list_all outOfStock colorVariants then r2\<lparr>nd_stockStatus := ''sold_out''\<rparr>
              else r2))"

definition applyProductGroup :: "product \<Rightarrow> ldJson \<Rightarrow> snapshot \<Rightarrow> snapshot" where
  "applyProductGroup p ld r =
     (let variants = hasVariant ld;
          r1 = r\<lparr>nd_availableColors := colorMapValues variants []\<rparr>;
          colorVariants = (if color p \<noteq> [] then filter (\<lambda>v. vColor v = color p) variants
                           else [])
      in applyColorVariants p colorVariants r1)"

text \<open>
  Lines 339 to 400: the loop over the JSON-LD scripts. A script that does not parse is
  skipped by the \<^verbatim>\<open>catch\<close> inside the loop; the first \<^verbatim>\<open>ProductGroup\<close> ends the loop.
\<close>

fun ldLoop :: "product \<Rightarrow> ldJson parsed list \<Rightarrow> snapshot \<Rightarrow> snapshot" where
  "ldLoop p [] r = r"
| "ldLoop p (ParseError # rest) r = ldLoop p rest r"
| "ldLoop p (Parsed ld # rest) r =
     (if ldType ld \<noteq> ''ProductGroup'' then ldLoop p rest r else applyProductGroup p ld r)"

definition isIntl :: "product \<Rightarrow> bool" where
  "isIntl p = (includesStr (url p) ''.html'' \<or> includesStr (url p) ''lululemon.com.hk''
               \<or> includesStr (url p) ''lululemon.com.au'')"

text \<open>Lines 406 to 438: the text fallback for the stock status.\<close>

definition textFallback :: "product \<Rightarrow> page \<Rightarrow> snapshot \<Rightarrow> snapshot" where
  "textFallback p html r =
     (if \<not> isIntl p
      then (let r1 = (if (hasLowStockWarningId html \<or> hasHurryOnlyAFewLeft html
                          \<or> hasOnlyAFewLeft html \<or> hasAlmostGone html)
                         \<and> nd_stockStatus r \<noteq> ''sold_out''
                      then r\<lparr>nd_stockStatus := ''low_stock''\<rparr> else r)
            in if nd_stockStatus r1 \<noteq> ''sold_out'' \<and> nd_stockStatus r1 \<noteq> ''low_stock''
                  \<and> (hasSoldOutText html \<or> hasOutOfStockText html)
               then r1\<lparr>nd_stockStatus := ''sold_out''\<rparr> else r1)
      else (if nd_stockStatus r = ''in_stock'' \<and> visibleLowStock html
            then r\<lparr>nd_stockStatus := ''low_stock''\<rparr> else r))"

definition parseProductHtml :: "page \<Rightarrow> product \<Rightarrow> snapshot" where
  "parseProductHtml html p =
     (let result = \<lparr>nd_currentPrice = None, nd_originalPrice = None, nd_onSale = False,
                    nd_stockStatus = ''in_stock'', nd_availableColors = []\<rparr>;
          r1 = (case nextDataMatch html of
                  Some (Parsed queries) \<Rightarrow>
                    (case findQueryData queries of
                       Some qd \<Rightarrow> applyNextData p qd result
                     | None \<Rightarrow> result)
                | _ \<Rightarrow> result);
          r2 = (if isIntl p \<or> nextDataMatch html = None
                then ldLoop p (ldMatches html) r1 else r1);
          r3 = textFallback p html r2
      in if \<not> truthyNum (nd_currentPrice r3)
         then (case priceMatch html of
                 Some pr \<Rightarrow> r3\<lparr>nd_currentPrice := Some pr\<rparr>
               | None \<Rightarrow> r3)
         else r3)"

subsection \<open>The environment of a cycle\<close>

text \<open>
  \<^verbatim>\<open>fetch\<close> either rejects (a network error) or resolves to a status and a body;
  \<^verbatim>\<open>response.ok\<close> is a status from 200 to 299.
\<close>

datatype response = NetworkError | Http nat page

definition responseOk :: "nat \<Rightarrow> bool" where
  "responseOk status = (200 \<le> status \<and> status \<le> 299)"

text \<open>
  The world outside the service worker: what a URL serves during the cycle, whether the
  \<open>k\<close>-th call of \<^verbatim>\<open>chrome.notifications.create\<close> of the cycle is accepted (a rejected
  promise is an exception at the \<^verbatim>\<open>await\<close>), and what the \<open>k\<close>-th call of
  \<^verbatim>\<open>Date.now()\<close> returns, and whether the \<open>k\<close>-th call of \<^verbatim>\<open>chrome.storage.local\<close>
  of the run is fulfilled (a rejected \<^verbatim>\<open>get\<close> or \<^verbatim>\<open>set\<close>, as on an exceeded quota, is
  an exception too).
\<close>

record world =
  fetch :: "string \<Rightarrow> response"
  notifyOk :: "nat \<Rightarrow> bool"
  storageOk :: "nat \<Rightarrow> bool"
  clock :: "nat \<Rightarrow> int"

datatype error = NotificationError | StorageError

text \<open>The two call sites of \<^verbatim>\<open>fetch\<close>, with the URL requested.\<close>

datatype fetchCall = ProductFetch string | MarkdownFetch string

text \<open>
  An entry of \<^verbatim>\<open>pendingNotifications\<close>: the URL to open on a click, and the change the
  notification was created for (its title and message are functions of the product and
  the change; its id is made of the time and a random number).
\<close>

record notification =
  notifChange :: change
  notifUrl :: string

text \<open>
  The local variables of one run of \<^verbatim>\<open>checkAllProducts\<close>, with the log of the fetches
  issued and the counters of the calls of \<^verbatim>\<open>chrome.notifications.create\<close> and
  \<^verbatim>\<open>Date.now()\<close>.
\<close>

record cycle =
  pendingNotifications :: "notification list"
  fetchCache :: "string \<rightharpoonup> snapshot"
  newColorNotifiedProductIds :: "string set"
  fetchLog :: "fetchCall list"
  notifyCalls :: nat
  ticks :: nat

definition emptyCycle :: cycle where
  "emptyCycle = \<lparr>pendingNotifications = [], fetchCache = Map.empty,
                  newColorNotifiedProductIds = {}, fetchLog = [], notifyCalls = 0, ticks = 0\<rparr>"

subsection \<open>fetchProductStatus\<close>

definition fetchProductStatus :: "world \<Rightarrow> cycle \<Rightarrow> product \<Rightarrow> cycle \<times> snapshot option" where
  "fetchProductStatus w c p =
     (let c1 = c\<lparr>fetchLog := fetchLog c @ [ProductFetch (url p)]\<rparr> in
      case fetch w (url p) of
        NetworkError \<Rightarrow> (c1, None)
      | Http status html \<Rightarrow>
          if \<not> responseOk status then (c1, None)
          else (c1, Some (parseProductHtml html p)))"

subsection \<open>checkMarkdownTransition\<close>

record transition =
  discountUrl :: string
  mdChange :: change

text \<open>\<^verbatim>\<open>x || '?'\<close>.\<close>

definition orUnknown :: "rat option \<Rightarrow> mdPrice" where
  "orUnknown x = (case x of Some r \<Rightarrow> if r \<noteq> 0 then Known r else Unknown | None \<Rightarrow> Unknown)"

text \<open>Lines 534 to 537: the URL of the discount page, from the identifiers of its payload.\<close>

definition discountUrlOf :: "product \<Rightarrow> string \<Rightarrow> queryData \<Rightarrow> string" where
  "discountUrlOf p trackedColorCode mdQueryData =
     (let mdProductId = (case productSummary mdQueryData of
                           Some ps \<Rightarrow> summaryProductId ps | None \<Rightarrow> []);
          mdSlug = (case productSummary mdQueryData of
                      Some ps \<Rightarrow> unifiedId ps | None \<Rightarrow> []);
          parentCat = (case productSummary mdQueryData of
                         Some ps \<Rightarrow> parentCategoryUnifiedId ps | None \<Rightarrow> [])
      in ''https://shop.lululemon.com/p/'' @ parentCat @ ''/'' @ mdSlug
         @ ''/_/'' @ mdProductId @ ''?color='' @ trackedColorCode
         @ (if sizeSelected p then ''&sz='' @ size p else []))"

text \<open>Lines 516 to 549: the tracked colour on the markdown page.\<close>

definition markdownFromQueryData :: "product \<Rightarrow> string \<Rightarrow> queryData \<Rightarrow> transition option" where
  "markdownFromQueryData p trackedColorCode mdQueryData =
     (case colors mdQueryData of
        None \<Rightarrow> None
      | Some cs \<Rightarrow>
          (case find (\<lambda>c. code c = trackedColorCode) cs of
             None \<Rightarrow> None
           | Some mdColor \<Rightarrow>
               (let mdSku = (case skus mdQueryData of
                               Some sks \<Rightarrow> find (skuMatches p trackedColorCode) sks
                             | None \<Rightarrow> None);
                    mdPrice = (case mdSku of Some s \<Rightarrow> price s | None \<Rightarrow> None);
                    sale = (case mdPrice of
                              Some pr \<Rightarrow> if truthy (salePrice pr) then parseFloat (salePrice pr)
                                         else None
                            | None \<Rightarrow> None);
                    list = (case mdPrice of
                              Some pr \<Rightarrow> if truthy (listPrice pr) then parseFloat (listPrice pr)
                                         else currentPrice p
                            | None \<Rightarrow> currentPrice p)
                in Some \<lparr>discountUrl = discountUrlOf p trackedColorCode mdQueryData,
                         mdChange = MovedToMarkdown (orUnknown sale) (orUnknown list)\<rparr>)))"

text \<open>
  Lines 489 to 514: the payload of the markdown page; every failure of the fetch or of the
  parse is \<^verbatim>\<open>null\<close>.
\<close>

definition markdownQueryData :: "world \<Rightarrow> product \<Rightarrow> queryData option" where
  "markdownQueryData w p =
     (case fetch w (insertMD (url p)) of
        NetworkError \<Rightarrow> None
      | Http status html \<Rightarrow>
          if \<not> responseOk status then None
          else (case nextDataMatch html of
                  Some (Parsed queries) \<Rightarrow> findQueryData queries
                | _ \<Rightarrow> None))"

definition markdownPage :: "world \<Rightarrow> product \<Rightarrow> string \<Rightarrow> transition option" where
  "markdownPage w p trackedColorCode =
     (case markdownQueryData w p of
        Some mdQueryData \<Rightarrow> markdownFromQueryData p trackedColorCode mdQueryData
      | None \<Rightarrow> None)"

definition checkMarkdownTransition ::
  "world \<Rightarrow> cycle \<Rightarrow> product \<Rightarrow> snapshot \<Rightarrow> cycle \<times> transition option" where
  "checkMarkdownTransition w c p newData =
     (case getColorCodeFromUrl (url p) of
        None \<Rightarrow> (c, None)
      | Some trackedColorCode \<Rightarrow>
          if trackedColorCode = [] then (c, None)
          else if list_ex (\<lambda>col. code col = trackedColorCode) (nd_availableColors newData)
          then (c, None)
          else (c\<lparr>fetchLog := fetchLog c @ [MarkdownFetch (insertMD (url p))]\<rparr>,
                markdownPage w p trackedColorCode))"

subsection \<open>sendNotification\<close>

text \<open>
  Every change type has a title, so the \<^verbatim>\<open>default: return null\<close> of the switch is not
  reached; the call reads the clock for the id and asks for one notification.
\<close>

definition sendNotification ::
  "world \<Rightarrow> cycle \<Rightarrow> product \<Rightarrow> change \<Rightarrow> cycle \<times> (error + notification)" where
  "sendNotification w c p ch =
     (let c1 = c\<lparr>notifyCalls := Suc (notifyCalls c), ticks := Suc (ticks c)\<rparr> in
      if notifyOk w (notifyCalls c)
      then (c1, Inr \<lparr>notifChange = ch, notifUrl = url p\<rparr>)
      else (c1, Inl NotificationError))"

subsection \<open>checkAllProducts\<close>

definition isNewColor :: "change \<Rightarrow> bool" where
  "isNewColor ch = (case ch of NewColor n \<Rightarrow> True | _ \<Rightarrow> False)"

definition isSoldOutChange :: "change \<Rightarrow> bool" where
  "isSoldOutChange ch = (case ch of StatusChange f t \<Rightarrow> t = ''sold_out'' | _ \<Rightarrow> False)"

text \<open>Lines 166 to 169: the remaining notifications, up to the first exception.\<close>

fun sendRemaining :: "world \<Rightarrow> product \<Rightarrow> change list \<Rightarrow> cycle \<Rightarrow> cycle \<times> error option" where
  "sendRemaining w p [] c = (c, None)"
| "sendRemaining w p (ch # chs) c =
     (case sendNotification w c p ch of
        (c1, Inl e) \<Rightarrow> (c1, Some e)
      | (c1, Inr notif) \<Rightarrow>
          sendRemaining w p chs
            (c1\<lparr>pendingNotifications := pendingNotifications c1 @ [notif]\<rparr>))"

text \<open>
  Lines 171 to 184: the merged product. \<open>t\<close> is the clock counter at the merge; the second
  reading of the clock is in the \<^verbatim>\<open>lastChange\<close> literal.
\<close>

definition mergeProduct ::
  "world \<Rightarrow> nat \<Rightarrow> product \<Rightarrow> snapshot \<Rightarrow> transition option \<Rightarrow> change list \<Rightarrow> product" where
  "mergeProduct w t p newData markdownTransition changes =
     p\<lparr>currentPrice := (if nd_currentPrice newData \<noteq> None then nd_currentPrice newData
                         else currentPrice p),
       originalPrice := (if nd_originalPrice newData \<noteq> None then nd_originalPrice newData
                          else originalPrice p),
       onSale := nd_onSale newData,
       stockStatus := (if markdownTransition \<noteq> None then ''in_stock''
                        else nd_stockStatus newData),
       availableColors := (if length (nd_availableColors newData) > 0
                            then Some (nd_availableColors newData) else availableColors p),
       lastChecked := Some (clock w t),
       lastChange := (if markdownTransition \<noteq> None then Some (''moved_to_markdown'', clock w (Suc t))
                       else (case changes of
                               ch # rest \<Rightarrow> Some (changeType ch, clock w (Suc t))
                             | [] \<Rightarrow> lastChange p)),
       markdownUrl := (case markdownTransition of
                         Some mt \<Rightarrow> Some (discountUrl mt)
                       | None \<Rightarrow> markdownUrl p)\<rparr>"

text \<open>Lines 165 to 184: send what is left of the changes, then merge.\<close>

definition finishProduct ::
  "world \<Rightarrow> cycle \<Rightarrow> product \<Rightarrow> snapshot \<Rightarrow> transition option \<Rightarrow> change list
     \<Rightarrow> cycle \<times> (error + product)" where
  "finishProduct w c p newData markdownTransition changes =
     (case sendRemaining w p changes c of
        (c1, Some e) \<Rightarrow> (c1, Inl e)
      | (c1, None) \<Rightarrow>
          (c1\<lparr>ticks := ticks c1
                  + (if changes \<noteq> [] \<or> markdownTransition \<noteq> None then 2 else 1)\<rparr>,
           Inr (mergeProduct w (ticks c1) p newData markdownTransition changes)))"

text \<open>Lines 139 to 141: a product line that has announced a new colour drops the event.\<close>

definition dedupNewColor :: "cycle \<Rightarrow> product \<Rightarrow> change list \<Rightarrow> change list" where
  "dedupNewColor c p changes =
     (if productId p \<noteq> [] \<and> productId p \<in> newColorNotifiedProductIds c
      then filter (\<lambda>ch. \<not> isNewColor ch) changes else changes)"

text \<open>Lines 144 to 146.\<close>

definition markNewColorNotified :: "cycle \<Rightarrow> product \<Rightarrow> change list \<Rightarrow> cycle" where
  "markNewColorNotified c p changes =
     (if list_ex isNewColor changes \<and> productId p \<noteq> []
      then c\<lparr>newColorNotifiedProductIds := insert (productId p) (newColorNotifiedProductIds c)\<rparr>
      else c)"

text \<open>Lines 150 to 153: when the markdown page is looked at.\<close>

definition markdownCheckDue :: "product \<Rightarrow> change list \<Rightarrow> bool" where
  "markdownCheckDue p changes =
     (\<not> includesStr (url p) ''-MD/'' \<and> \<not> includesStr (url p) ''.html''
      \<and> (list_ex isSoldOutChange changes \<or> trackNewColors p))"

text \<open>
  Lines 155 to 184 for a transition found: the sold-out event is dropped, the markdown
  notification is sent with the discount URL, then the rest.
\<close>

definition finishMarkdown ::
  "world \<Rightarrow> cycle \<Rightarrow> product \<Rightarrow> snapshot \<Rightarrow> transition \<Rightarrow> change list
     \<Rightarrow> cycle \<times> (error + product)" where
  "finishMarkdown w c p newData mt changes =
     (case sendNotification w c p (mdChange mt) of
        (c1, Inl e) \<Rightarrow> (c1, Inl e)
      | (c1, Inr notif) \<Rightarrow>
          finishProduct w
            (c1\<lparr>pendingNotifications :=
                  pendingNotifications c1 @ [notif\<lparr>notifUrl := discountUrl mt\<rparr>]\<rparr>)
            p newData (Some mt)
            (filter (\<lambda>ch. \<not> isSoldOutChange ch) changes))"

text \<open>Lines 134 to 184: the body of the \<^verbatim>\<open>try\<close> once \<^verbatim>\<open>newData\<close> is there.\<close>

definition processProduct ::
  "world \<Rightarrow> cycle \<Rightarrow> product \<Rightarrow> snapshot \<Rightarrow> cycle \<times> (error + product)" where
  "processProduct w c p newData =
     (let changes = dedupNewColor c p (detectChanges p newData);
          c1 = markNewColorNotified c p changes
      in if markdownCheckDue p changes
         then (case checkMarkdownTransition w c1 p newData of
                 (c2, Some mt) \<Rightarrow> finishMarkdown w c2 p newData mt changes
               | (c2, None) \<Rightarrow> finishProduct w c2 p newData None changes)
         else finishProduct w c1 p newData None changes)"

text \<open>Lines 119 to 127: the snapshot of the product's page, from the cache or fetched.\<close>

definition getNewData :: "world \<Rightarrow> cycle \<Rightarrow> product \<Rightarrow> cycle \<times> snapshot option" where
  "getNewData w c p =
     (let baseUrl = baseUrlOf (url p) in
      case fetchCache c baseUrl of
        Some cached \<Rightarrow> (c, Some cached)
      | None \<Rightarrow>
          (case fetchProductStatus w c p of
             (c1, Some newData) \<Rightarrow>
               (c1\<lparr>fetchCache := (fetchCache c1)(baseUrl \<mapsto> newData)\<rparr>, Some newData)
           | (c1, None) \<Rightarrow> (c1, None)))"

text \<open>
  Lines 117 to 188: one turn of the loop; the product returned is the one pushed on
  \<^verbatim>\<open>updatedProducts\<close>.
\<close>

definition checkProduct :: "world \<Rightarrow> cycle \<Rightarrow> product \<Rightarrow> cycle \<times> product" where
  "checkProduct w c p =
     (case getNewData w c p of
        (c1, None) \<Rightarrow> (c1, p)
      | (c1, Some newData) \<Rightarrow>
          (case processProduct w c1 p newData of
             (c2, Inl err) \<Rightarrow> (c2, p)
           | (c2, Inr updated) \<Rightarrow> (c2, updated)))"

fun checkLoop :: "world \<Rightarrow> cycle \<Rightarrow> product list \<Rightarrow> cycle \<times> product list" where
  "checkLoop w c [] = (c, [])"
| "checkLoop w c (p # ps) =
     (case checkProduct w c p of
        (c1, updated) \<Rightarrow>
          (case checkLoop w c1 ps of
             (c2, updatedProducts) \<Rightarrow> (c2, updated # updatedProducts)))"

definition runCycle :: "world \<Rightarrow> product list \<Rightarrow> cycle \<times> product list" where
  "runCycle w trackedProducts = checkLoop w emptyCycle trackedProducts"

text \<open>
  The store of \<^verbatim>\<open>chrome.storage.local\<close> and the badge. \<open>notificationMap\<close> keeps its
  entries in the order of their creation.
\<close>

record store =
  trackedProducts :: "product list"
  notificationMap :: "notification list"
  badgeState :: badge

text \<open>
  Lines 192 to 198: the notification URLs are merged into the stored map, with one
  \<^verbatim>\<open>get\<close> and one \<^verbatim>\<open>set\<close>, when there are any. The number returned is the count of
  storage calls made so far in the run (the first is the \<^verbatim>\<open>get\<close> of line 101).
\<close>

definition writeNotificationMap ::
  "world \<Rightarrow> store \<Rightarrow> notification list \<Rightarrow> store \<times> nat \<times> error option" where
  "writeNotificationMap w st pending =
     (if pending = [] then (st, 1, None)
      else if \<not> storageOk w 1 then (st, 2, Some StorageError)
      else if \<not> storageOk w 2 then (st, 3, Some StorageError)
      else (st\<lparr>notificationMap := notificationMap st @ pending\<rparr>, 3, None))"

text \<open>
  The storage calls are outside the \<^verbatim>\<open>try\<close>: a rejected one ends the run with its
  exception, and the store keeps what was written before. \<^verbatim>\<open>updateBadge\<close> reads the
  stored list again.
\<close>

definition checkAllProducts :: "world \<Rightarrow> store \<Rightarrow> store \<times> error option" where
  "checkAllProducts w st =
     (if \<not> storageOk w 0 then (st, Some StorageError)
      else if trackedProducts st = [] then (st, None)
      else (case runCycle w (trackedProducts st) of
              (c, updatedProducts) \<Rightarrow>
                (case writeNotificationMap w st (pendingNotifications c) of
                   (st1, n, Some e) \<Rightarrow> (st1, Some e)
                 | (st1, n, None) \<Rightarrow>
                     if \<not> storageOk w n then (st1, Some StorageError)
                     else (let st2 = st1\<lparr>trackedProducts := updatedProducts\<rparr> in
                           if \<not> storageOk w (Suc n) then (st2, Some StorageError)
                           else (st2\<lparr>badgeState :=
                                       updateBadge updatedProducts (badgeState st2)\<rparr>,
                                 None)))))"

subsection \<open>Notions the properties are stated with\<close>

text \<open>The three values of the stock status.\<close>

definition validStockStatus :: "string \<Rightarrow> bool" where
  "validStockStatus s = (s = ''in_stock'' \<or> s = ''low_stock'' \<or> s = ''sold_out'')"

text \<open>The identity and settings fields of a tracked product.\<close>

definition identityOf ::
  "product \<Rightarrow> string \<times> string \<times> string \<times> string \<times> string \<times> string \<times> string \<times> string \<times> bool \<times> int" where
  "identityOf p = (productId p, color p, size p, name p, productLine p, url p, region p,
                   image p, trackNewColors p, addedAt p)"

text \<open>
  The value \<^verbatim>\<open>checkMarkdownTransition\<close> resolves to, without the log of the fetch.
\<close>

definition markdownResult :: "world \<Rightarrow> product \<Rightarrow> snapshot \<Rightarrow> transition option" where
  "markdownResult w p newData =
     (case getColorCodeFromUrl (url p) of
        None \<Rightarrow> None
      | Some trackedColorCode \<Rightarrow>
          if trackedColorCode = [] then None
          else if list_ex (\<lambda>col. code col = trackedColorCode) (nd_availableColors newData)
          then None
          else markdownPage w p trackedColorCode)"

text \<open>
  The values of the variables \<^verbatim>\<open>changes\<close> (after line 141) and
  \<^verbatim>\<open>markdownTransition\<close> (at line 165) of one turn of the loop, and the changes left for
  the last loop of notifications.
\<close>

definition changesOf :: "cycle \<Rightarrow> product \<Rightarrow> snapshot \<Rightarrow> change list" where
  "changesOf c p newData = dedupNewColor c p (detectChanges p newData)"

definition transitionOf :: "world \<Rightarrow> cycle \<Rightarrow> product \<Rightarrow> snapshot \<Rightarrow> transition option" where
  "transitionOf w c p newData =
     (if markdownCheckDue p (changesOf c p newData) then markdownResult w p newData else None)"

definition remainingChanges :: "world \<Rightarrow> cycle \<Rightarrow> product \<Rightarrow> snapshot \<Rightarrow> change list" where
  "remainingChanges w c p newData =
     (if transitionOf w c p newData \<noteq> None
      then filter (\<lambda>ch. \<not> isSoldOutChange ch) (changesOf c p newData)
      else changesOf c p newData)"

text \<open>The notifications a turn of the loop pushes when none is rejected.\<close>

definition turnNotifications :: "world \<Rightarrow> cycle \<Rightarrow> product \<Rightarrow> snapshot \<Rightarrow> notification list" where
  "turnNotifications w c p newData =
     (case transitionOf w c p newData of
        Some mt \<Rightarrow> [\<lparr>notifChange = mdChange mt, notifUrl = discountUrl mt\<rparr>]
      | None \<Rightarrow> [])
     @ map (\<lambda>ch. \<lparr>notifChange = ch, notifUrl = url p\<rparr>) (remainingChanges w c p newData)"

definition isStatusChange :: "change \<Rightarrow> bool" where
  "isStatusChange ch = (case ch of StatusChange f t \<Rightarrow> True | _ \<Rightarrow> False)"

definition isMovedToMarkdown :: "change \<Rightarrow> bool" where
  "isMovedToMarkdown ch = (case ch of MovedToMarkdown s l \<Rightarrow> True | _ \<Rightarrow> False)"

text \<open>The fetches of product pages in a log, and those the server answered with success.\<close>

fun productFetches :: "fetchCall list \<Rightarrow> string list" where
  "productFetches [] = []"
| "productFetches (ProductFetch u # calls) = u # productFetches calls"
| "productFetches (MarkdownFetch u # calls) = productFetches calls"

definition fetchOk :: "world \<Rightarrow> string \<Rightarrow> bool" where
  "fetchOk w u = (case fetch w u of NetworkError \<Rightarrow> False | Http status html \<Rightarrow> responseOk status)"

text \<open>
  A turn of the loop fails: the page could not be fetched, or the body of the
  \<^verbatim>\<open>try\<close> threw.
\<close>

definition fetchFails :: "world \<Rightarrow> cycle \<Rightarrow> product \<Rightarrow> bool" where
  "fetchFails w c p = (fetchCache c (baseUrlOf (url p)) = None \<and> \<not> fetchOk w (url p))"

definition processingThrows :: "world \<Rightarrow> cycle \<Rightarrow> product \<Rightarrow> bool" where
  "processingThrows w c p =
     (case getNewData w c p of
        (c1, None) \<Rightarrow> False
      | (c1, Some newData) \<Rightarrow>
          (case processProduct w c1 p newData of
             (c2, Inl err) \<Rightarrow> True
           | (c2, Inr updated) \<Rightarrow> False))"

text \<open>
  The sale the extractor looks for, in the words of the specification: the
  \<^verbatim>\<open>price\<close> of the SKU that matches the tracked colour and size in the
  \<^verbatim>\<open>__NEXT_DATA__\<close> payload (lines 250 to 291), and whether its sale price is a number
  strictly below its list price.
\<close>

definition matchingSkuPrice :: "page \<Rightarrow> product \<Rightarrow> skuPrice option" where
  "matchingSkuPrice html p =
     (case nextDataMatch html of
        Some (Parsed queries) \<Rightarrow>
          (case findQueryData queries of
             Some qd \<Rightarrow>
               (case (getColorCodeFromUrl (url p), skus qd) of
                  (Some colorCode, Some sks) \<Rightarrow>
                    if colorCode \<noteq> []
                    then (case find (skuMatches p colorCode) sks of
                            Some m \<Rightarrow> price m
                          | None \<Rightarrow> None)
                    else None
                | _ \<Rightarrow> None)
           | None \<Rightarrow> None)
      | _ \<Rightarrow> None)"


definition nonZeroSaleBelowList :: "skuPrice \<Rightarrow> bool" where
  "nonZeroSaleBelowList pr =
     (case (skuSalePrice pr, skuListPrice pr) of
        (Some s, Some l) \<Rightarrow> s \<noteq> 0 \<and> s < l
      | _ \<Rightarrow> False)"

text \<open>The attention count in the words of the specification: one for each product.\<close>

definition needsAttention :: "product \<Rightarrow> bool" where
  "needsAttention p =
     (stockStatus p = ''low_stock'' \<or> stockStatus p = ''sold_out'' \<or> onSale p)"

definition attentionCount :: "product list \<Rightarrow> nat" where
  "attentionCount ps = length (filter needsAttention ps)"

subsection \<open>Concrete products, pages and worlds\<close>

definition blackM :: product where
  "blackM = \<lparr>productId = ''prod1'', color = ''Black'', size = ''M'', name = ''Shirt'',
     productLine = ''Shirt'', url = ''https://shop.lululemon.com/p/m/Shirt/_/prod1?color=1234&sz=M'',
     region = ''US'', image = [], trackNewColors = True, addedAt = 0,
     currentPrice = Some 60, originalPrice = None, onSale = False,
     stockStatus = ''in_stock'',
     availableColors = Some [\<lparr>code = ''1234'', colorName = ''Black''\<rparr>],
     markdownUrl = None, lastChecked = None, lastChange = None\<rparr>"

definition blackS :: product where
  "blackS = blackM\<lparr>size := ''S'',
     url := ''https://shop.lululemon.com/p/m/Shirt/_/prod1?color=1234&sz=S''\<rparr>"

definition soldOutOnSale :: product where
  "soldOutOnSale = blackM\<lparr>currentPrice := Some 40, originalPrice := Some 60, onSale := True,
     stockStatus := ''sold_out''\<rparr>"

definition noColorsYet :: product where
  "noColorsYet = blackM\<lparr>availableColors := Some []\<rparr>"

definition emptyPage :: page where
  "emptyPage = \<lparr>nextDataMatch = None, ldMatches = [], hasLowStockWarningId = False,
     hasHurryOnlyAFewLeft = False, hasOnlyAFewLeft = False, hasAlmostGone = False,
     hasSoldOutText = False, hasOutOfStockText = False, visibleLowStock = False,
     priceMatch = None\<rparr>"

definition shirtSummary :: productSummary where
  "shirtSummary = \<lparr>isSoldOut = False, summaryProductId = ''prod1'', unifiedId = ''Shirt'',
     parentCategoryUnifiedId = ''m''\<rparr>"

text \<open>The normal page once Black has left it: only White is listed.\<close>

definition goneQuery :: queryData where
  "goneQuery = \<lparr>productSummary = Some shirtSummary,
     skus = Some [\<lparr>skuColorCode = Some ''5678'', skuSize = ''M'', available = True,
        price = Some \<lparr>listPrice = Str (Some 60), salePrice = Undefined\<rparr>\<rparr>],
     colors = Some [\<lparr>code = ''5678'', colorName = ''White''\<rparr>],
     colorDriver = Some [\<lparr>cdColor = ''1234'', cdSizes = [''S'']\<rparr>]\<rparr>"

definition gonePage :: page where
  "gonePage = emptyPage\<lparr>nextDataMatch := Some (Parsed [None, Some goneQuery])\<rparr>"

text \<open>The markdown page: Black in M at 40, was 60.\<close>

definition mdQuery :: queryData where
  "mdQuery = \<lparr>productSummary = Some \<lparr>isSoldOut = False, summaryProductId = ''prod9'',
        unifiedId = ''Shirt-MD'', parentCategoryUnifiedId = ''m''\<rparr>,
     skus = Some [\<lparr>skuColorCode = Some ''1234'', skuSize = ''M'', available = True,
        price = Some \<lparr>listPrice = Str (Some 60), salePrice = Str (Some 40)\<rparr>\<rparr>],
     colors = Some [\<lparr>code = ''1234'', colorName = ''Black''\<rparr>],
     colorDriver = None\<rparr>"

definition mdPage :: page where
  "mdPage = emptyPage\<lparr>nextDataMatch := Some (Parsed [Some mdQuery])\<rparr>"

text \<open>The normal page with Black on sale in both sizes and White as a second colour.\<close>

definition saleQuery :: queryData where
  "saleQuery = \<lparr>productSummary = Some shirtSummary,
     skus = Some [\<lparr>skuColorCode = Some ''1234'', skuSize = ''M'', available = True,
                   price = Some \<lparr>listPrice = Str (Some 60), salePrice = Str (Some 40)\<rparr>\<rparr>,
                 \<lparr>skuColorCode = Some ''1234'', skuSize = ''S'', available = True,
                   price = Some \<lparr>listPrice = Str (Some 60), salePrice = Str (Some 40)\<rparr>\<rparr>],
     colors = Some [\<lparr>code = ''1234'', colorName = ''Black''\<rparr>,
                   \<lparr>code = ''5678'', colorName = ''White''\<rparr>],
     colorDriver = None\<rparr>"

definition salePage :: page where
  "salePage = emptyPage\<lparr>nextDataMatch := Some (Parsed [Some saleQuery])\<rparr>"



definition emptyStore :: store where
  "emptyStore = \<lparr>trackedProducts = [], notificationMap = [],
                  badgeState = \<lparr>badgeText = None, badgeColor = []\<rparr>\<rparr>"

definition mdWorld :: world where
  "mdWorld = \<lparr>fetch = (\<lambda>u. if u = ''https://shop.lululemon.com/p/m/Shirt/_/prod1?color=1234&sz=M''
                          then Http 200 gonePage
                          else if u = ''https://shop.lululemon.com/p/m/Shirt-MD/_/prod1?color=1234&sz=M''
                          then Http 200 mdPage
                          else Http 404 emptyPage),
     notifyOk = (\<lambda>k. True), storageOk = (\<lambda>k. True), clock = (\<lambda>k. int k)\<rparr>"

definition saleWorld :: world where
  "saleWorld = \<lparr>fetch = (\<lambda>u. Http 200 salePage), notifyOk = (\<lambda>k. True),
                 storageOk = (\<lambda>k. True), clock = (\<lambda>k. int k)\<rparr>"

definition offlineWorld :: world where
  "offlineWorld = \<lparr>fetch = (\<lambda>u. NetworkError), notifyOk = (\<lambda>k. True),
                    storageOk = (\<lambda>k. True), clock = (\<lambda>k. int k)\<rparr>"

text \<open>The first notification of the cycle is rejected, the later ones are accepted.\<close>

definition flakyWorld :: world where
  "flakyWorld = \<lparr>fetch = (\<lambda>u. Http 200 salePage), notifyOk = (\<lambda>k. 0 < k),
                  storageOk = (\<lambda>k. True), clock = (\<lambda>k. int k)\<rparr>"

text \<open>
  The snapshot a turn of the loop works with (lines 119 to 127), as a function of the cache,
  and the cache after the turn.
\<close>

definition newDataOf :: "world \<Rightarrow> (string \<rightharpoonup> snapshot) \<Rightarrow> product \<Rightarrow> snapshot option" where
  "newDataOf w cache p =
     (case cache (baseUrlOf (url p)) of
        Some cached \<Rightarrow> Some cached
      | None \<Rightarrow>
          (case fetch w (url p) of
             NetworkError \<Rightarrow> None
           | Http status html \<Rightarrow>
               if \<not> responseOk status then None else Some (parseProductHtml html p)))"

definition cacheAfter :: "world \<Rightarrow> (string \<rightharpoonup> snapshot) \<Rightarrow> product \<Rightarrow> (string \<rightharpoonup> snapshot)" where
  "cacheAfter w cache p =
     (case newDataOf w cache p of
        Some newData \<Rightarrow> cache(baseUrlOf (url p) \<mapsto> newData)
      | None \<Rightarrow> cache)"

definition validCache :: "(string \<rightharpoonup> snapshot) \<Rightarrow> bool" where
  "validCache cache = (\<forall>k nd. cache k = Some nd \<longrightarrow> validStockStatus (nd_stockStatus nd))"

text \<open>
  The successful fetches of product pages in the log have pairwise different page keys, and
  each of their keys is in the cache.
\<close>

definition okFetchKeys :: "world \<Rightarrow> cycle \<Rightarrow> string list" where
  "okFetchKeys w c = map baseUrlOf (filter (fetchOk w) (productFetches (fetchLog c)))"

definition fetchedOnce :: "world \<Rightarrow> cycle \<Rightarrow> bool" where
  "fetchedOnce w c =
     (distinct (okFetchKeys w c) \<and> (\<forall>k \<in> set (okFetchKeys w c). fetchCache c k \<noteq> None))"


text \<open>The storage answers the first \<^verbatim>\<open>get\<close> and rejects every later call.\<close>

definition quotaWorld :: world where
  "quotaWorld = saleWorld\<lparr>storageOk := (\<lambda>k. k = 0)\<rparr>"

text \<open>The URLs fetched in a cycle, by the loop and by the markdown check alike.\<close>

fun fetchedUrls :: "fetchCall list \<Rightarrow> string list" where
  "fetchedUrls [] = []"
| "fetchedUrls (ProductFetch u # calls) = u # fetchedUrls calls"
| "fetchedUrls (MarkdownFetch u # calls) = u # fetchedUrls calls"

text \<open>Two products tracked from a URL without \<^verbatim>\<open>/_/\<close>, and a world serving the page without Black.\<close>

definition plainM :: product where
  "plainM = blackM\<lparr>url := ''https://shop.lululemon.com/p/shirt?color=1234&sz=M''\<rparr>"

definition plainS :: product where
  "plainS = blackS\<lparr>url := ''https://shop.lululemon.com/p/shirt?color=1234&sz=S''\<rparr>"

definition goneWorld :: world where
  "goneWorld = \<lparr>fetch = (\<lambda>u. Http 200 gonePage), notifyOk = (\<lambda>k. True),
                 storageOk = (\<lambda>k. True), clock = (\<lambda>k. int k)\<rparr>"

text \<open>
  A product tracked from a URL without a colour parameter, its normal page once Black has
  left it and the product is flagged sold out, and a world serving that page and the
  markdown page.
\<close>

definition noColorParam :: product where
  "noColorParam = blackM\<lparr>url := ''https://shop.lululemon.com/p/m/Shirt/_/prod1''\<rparr>"

definition soldOutGonePage :: page where
  "soldOutGonePage = emptyPage\<lparr>nextDataMatch :=
     Some (Parsed [Some (goneQuery\<lparr>productSummary := Some (shirtSummary\<lparr>isSoldOut := True\<rparr>)\<rparr>)])\<rparr>"

definition noParamWorld :: world where
  "noParamWorld = \<lparr>fetch = (\<lambda>u. if u = ''https://shop.lululemon.com/p/m/Shirt/_/prod1''
                               then Http 200 soldOutGonePage
                               else if u = ''https://shop.lululemon.com/p/m/Shirt-MD/_/prod1''
                               then Http 200 mdPage
                               else Http 404 emptyPage),
     notifyOk = (\<lambda>k. True), storageOk = (\<lambda>k. True), clock = (\<lambda>k. int k)\<rparr>"


section \<open>Properties\<close>

subsection \<open>The stock status stays among its three values\<close>

lemma applySkuPrice_status: "nd_stockStatus (applySkuPrice pr r) = nd_stockStatus r"
  by (simp add: applySkuPrice_def Let_def)

lemma applyMatchingSku_status:
  "validStockStatus (nd_stockStatus r) \<Longrightarrow> validStockStatus (nd_stockStatus (applyMatchingSku m r))"
  by (simp add: applyMatchingSku_def Let_def applySkuPrice_status validStockStatus_def split: option.splits)

lemma applyColorDriver_status:
  "validStockStatus (nd_stockStatus r) \<Longrightarrow> validStockStatus (nd_stockStatus (applyColorDriver p cc qd r))"
  by (simp add: applyColorDriver_def validStockStatus_def split: option.splits)

lemma applyNextData_status:
  "validStockStatus (nd_stockStatus r) \<Longrightarrow> validStockStatus (nd_stockStatus (applyNextData p qd r))"
proof -
  assume v: "validStockStatus (nd_stockStatus r)"
  define r1 where "r1 = (if (case productSummary qd of Some ps \<Rightarrow> isSoldOut ps | None \<Rightarrow> False)
                then r\<lparr>nd_stockStatus := ''sold_out''\<rparr> else r)"
  define r2 where "r2 = (case colors qd of Some cs \<Rightarrow> r1\<lparr>nd_availableColors := cs\<rparr> | None \<Rightarrow> r1)"
  define r3 where "r3 = (case (getColorCodeFromUrl (url p), skus qd) of
                  (Some colorCode, Some sks) \<Rightarrow>
                    if colorCode \<noteq> []
                    then (case find (skuMatches p colorCode) sks of
                            Some m \<Rightarrow> applyMatchingSku m r2
                          | None \<Rightarrow> applyColorDriver p colorCode qd r2)
                    else r2
                | _ \<Rightarrow> r2)"
  have v1: "validStockStatus (nd_stockStatus r1)"
    using v by (simp add: r1_def validStockStatus_def)
  have v2: "validStockStatus (nd_stockStatus r2)"
    using v1 by (simp add: r2_def split: option.splits)
  have v3: "validStockStatus (nd_stockStatus r3)"
    using v2 by (simp add: r3_def applyMatchingSku_status applyColorDriver_status split: option.splits)
  have "applyNextData p qd r = (case skus qd of
           Some (s0 # rest) \<Rightarrow>
             if \<not> truthyNum (nd_currentPrice r3)
             then r3\<lparr>nd_currentPrice :=
                       orNull (parseFloat (case price s0 of Some pr \<Rightarrow> listPrice pr
                                           | None \<Rightarrow> Undefined))\<rparr>
             else r3
         | _ \<Rightarrow> r3)"
    unfolding applyNextData_def r1_def r2_def r3_def Let_def by (rule refl)
  then show ?thesis using v3 by (simp split: option.splits list.splits)
qed

lemma applyColorVariants_status:
  "validStockStatus (nd_stockStatus r) \<Longrightarrow> validStockStatus (nd_stockStatus (applyColorVariants p vs r))"
  by (simp add: applyColorVariants_def Let_def validStockStatus_def split: list.splits option.splits)

lemma applyProductGroup_status:
  "validStockStatus (nd_stockStatus r) \<Longrightarrow> validStockStatus (nd_stockStatus (applyProductGroup p ld r))"
  by (simp add: applyProductGroup_def Let_def applyColorVariants_status)

lemma ldLoop_status:
  "validStockStatus (nd_stockStatus r) \<Longrightarrow> validStockStatus (nd_stockStatus (ldLoop p lds r))"
  by (induction p lds r rule: ldLoop.induct) (simp_all add: applyProductGroup_status)

lemma textFallback_status:
  "validStockStatus (nd_stockStatus r) \<Longrightarrow> validStockStatus (nd_stockStatus (textFallback p html r))"
  by (simp add: textFallback_def Let_def validStockStatus_def)

lemma parseProductHtml_status: "validStockStatus (nd_stockStatus (parseProductHtml html p))"
proof -
  define result where "result = \<lparr>nd_currentPrice = None, nd_originalPrice = None, nd_onSale = False,
                    nd_stockStatus = ''in_stock'', nd_availableColors = []\<rparr>"
  define r1 where "r1 = (case nextDataMatch html of
                  Some (Parsed queries) \<Rightarrow>
                    (case findQueryData queries of
                       Some qd \<Rightarrow> applyNextData p qd result
                     | None \<Rightarrow> result)
                | _ \<Rightarrow> result)"
  define r2 where "r2 = (if isIntl p \<or> nextDataMatch html = None
                then ldLoop p (ldMatches html) r1 else r1)"
  define r3 where "r3 = textFallback p html r2"
  have v0: "validStockStatus (nd_stockStatus result)"
    by (simp add: result_def validStockStatus_def)
  have v1: "validStockStatus (nd_stockStatus r1)"
    using v0 by (simp add: r1_def applyNextData_status split: option.splits parsed.splits)
  have v2: "validStockStatus (nd_stockStatus r2)"
    using v1 by (simp add: r2_def ldLoop_status)
  have v3: "validStockStatus (nd_stockStatus r3)"
    using v2 by (simp add: r3_def textFallback_status)
  have "parseProductHtml html p = (if \<not> truthyNum (nd_currentPrice r3)
         then (case priceMatch html of
                 Some pr \<Rightarrow> r3\<lparr>nd_currentPrice := Some pr\<rparr>
               | None \<Rightarrow> r3)
         else r3)"
    unfolding parseProductHtml_def result_def r1_def r2_def r3_def Let_def by (rule refl)
  then show ?thesis using v3 by (simp split: option.splits)
qed

subsection \<open>What a turn of the loop stores\<close>

lemma finishProduct_Inr:
  "finishProduct w c p nd mt chs = (c', Inr u) \<Longrightarrow> \<exists>t. u = mergeProduct w t p nd mt chs"
  by (auto simp: finishProduct_def split: prod.splits option.splits)

lemma finishMarkdown_Inr:
  "finishMarkdown w c p nd mt chs = (c', Inr u) \<Longrightarrow> \<exists>t mt' chs'. u = mergeProduct w t p nd mt' chs'"
  unfolding finishMarkdown_def
  by (cases "sendNotification w c p (mdChange mt)")
     (auto split: sum.splits dest!: finishProduct_Inr)

lemma processProduct_Inr:
  assumes "processProduct w c p nd = (c', Inr u)"
  shows "\<exists>t mt chs. u = mergeProduct w t p nd mt chs"
proof -
  define chs where "chs = dedupNewColor c p (detectChanges p nd)"
  define c1 where "c1 = markNewColorNotified c p chs"
  obtain c2 r where cm: "checkMarkdownTransition w c1 p nd = (c2, r)"
    by (cases "checkMarkdownTransition w c1 p nd")
  have eq: "processProduct w c p nd =
      (if markdownCheckDue p chs
       then (case r of Some mt \<Rightarrow> finishMarkdown w c2 p nd mt chs
                     | None \<Rightarrow> finishProduct w c2 p nd None chs)
       else finishProduct w c1 p nd None chs)"
    unfolding processProduct_def Let_def chs_def[symmetric] c1_def[symmetric] cm by simp
  show ?thesis
  proof (cases "markdownCheckDue p chs")
    case False
    then show ?thesis using assms eq finishProduct_Inr by (metis)
  next
    case True
    then show ?thesis using assms eq finishProduct_Inr finishMarkdown_Inr
      by (cases r) (simp_all, metis+)
  qed
qed

lemma checkProduct_cases:
  "snd (checkProduct w c p) = p \<or>
   (\<exists>nd t mt chs. snd (getNewData w c p) = Some nd \<and>
        snd (checkProduct w c p) = mergeProduct w t p nd mt chs)"
proof -
  obtain c1 r where g: "getNewData w c p = (c1, r)" by (cases "getNewData w c p")
  show ?thesis
  proof (cases r)
    case None
    then show ?thesis using g by (simp add: checkProduct_def)
  next
    case (Some nd)
    obtain c2 res where pp: "processProduct w c1 p nd = (c2, res)"
      by (cases "processProduct w c1 p nd")
    show ?thesis
    proof (cases res)
      case (Inl e)
      then show ?thesis using g Some pp by (simp add: checkProduct_def)
    next
      case (Inr u)
      then obtain t mt chs where "u = mergeProduct w t p nd mt chs"
        using processProduct_Inr pp by blast
      then show ?thesis using g Some pp Inr by (auto simp: checkProduct_def)
    qed
  qed
qed

lemma mergeProduct_identity: "identityOf (mergeProduct w t p nd mt chs) = identityOf p"
  by (simp add: mergeProduct_def identityOf_def)

lemma checkProduct_identity: "identityOf (snd (checkProduct w c p)) = identityOf p"
  using checkProduct_cases[of w c p] by (auto simp: mergeProduct_identity)

lemma checkLoop_identity: "map identityOf (snd (checkLoop w c ps)) = map identityOf ps"
proof (induction ps arbitrary: c)
  case Nil
  then show ?case by simp
next
  case (Cons p ps)
  obtain c1 u where cp: "checkProduct w c p = (c1, u)" by (cases "checkProduct w c p")
  obtain c2 us where cl: "checkLoop w c1 ps = (c2, us)" by (cases "checkLoop w c1 ps")
  have "identityOf u = identityOf p" using checkProduct_identity[of w c p] cp by simp
  moreover have "map identityOf us = map identityOf ps" using Cons.IH[of c1] cl by simp
  ultimately show ?case using cp cl by simp
qed

lemma writeNotificationMap_tracked:
  "trackedProducts (fst (writeNotificationMap w st pending)) = trackedProducts st"
  by (simp add: writeNotificationMap_def)

lemma checkAllProducts_tracked:
  "trackedProducts (fst (checkAllProducts w st)) = trackedProducts st
   \<or> trackedProducts (fst (checkAllProducts w st)) = snd (runCycle w (trackedProducts st))"
proof -
  obtain c us where r: "runCycle w (trackedProducts st) = (c, us)"
    by (cases "runCycle w (trackedProducts st)")
  obtain st1 n e where wn: "writeNotificationMap w st (pendingNotifications c) = (st1, n, e)"
    by (cases "writeNotificationMap w st (pendingNotifications c)")
  have t1: "trackedProducts st1 = trackedProducts st"
    using writeNotificationMap_tracked[of w st "pendingNotifications c"] wn by simp
  show ?thesis
    using r wn t1 by (cases e) (simp_all add: checkAllProducts_def Let_def)
qed

lemma checkAllProducts_ok:
  assumes "\<forall>k. storageOk w k"
  shows "snd (checkAllProducts w st) = None
    \<and> trackedProducts (fst (checkAllProducts w st)) = snd (runCycle w (trackedProducts st))"
proof -
  obtain c us where r: "runCycle w (trackedProducts st) = (c, us)"
    by (cases "runCycle w (trackedProducts st)")
  have e: "us = []" if "trackedProducts st = []"
    using r that by (simp add: runCycle_def)
  show ?thesis
    using assms r e by (auto simp: checkAllProducts_def writeNotificationMap_def Let_def)
qed

text \<open>
  C10: one run of the check cycle persists a list of the same length and in the same order
  as the input, and the identity and settings fields of every product (productId, color,
  size, name, productLine, url, region, image, trackNewColors, addedAt) are unchanged.
\<close>

theorem C10_cycle_frame:
  "map identityOf (trackedProducts (fst (checkAllProducts w st)))
     = map identityOf (trackedProducts st)"
  using checkAllProducts_tracked[of w st]
  by (auto simp: runCycle_def checkLoop_identity)

theorem C10_cycle_frame_witness:
  "map identityOf (trackedProducts (fst (checkAllProducts saleWorld
      (emptyStore\<lparr>trackedProducts := [blackM, blackS]\<rparr>))))
   = [identityOf blackM, identityOf blackS]"
  using C10_cycle_frame[of saleWorld "emptyStore\<lparr>trackedProducts := [blackM, blackS]\<rparr>"]
  by simp

subsection \<open>What each step changes in the cycle state\<close>

lemma sendNotification_frame:
  "fetchCache (fst (sendNotification w c p ch)) = fetchCache c"
  "newColorNotifiedProductIds (fst (sendNotification w c p ch)) = newColorNotifiedProductIds c"
  "fetchLog (fst (sendNotification w c p ch)) = fetchLog c"
  "pendingNotifications (fst (sendNotification w c p ch)) = pendingNotifications c"
  "notifyCalls (fst (sendNotification w c p ch)) = Suc (notifyCalls c)"
  by (simp_all add: sendNotification_def Let_def)

lemma sendNotification_ok:
  "notifyOk w (notifyCalls c) \<Longrightarrow>
   snd (sendNotification w c p ch) = Inr \<lparr>notifChange = ch, notifUrl = url p\<rparr>"
  by (simp add: sendNotification_def Let_def)

lemma sendNotification_Inr:
  "sendNotification w c p ch = (c1, Inr n) \<Longrightarrow> n = \<lparr>notifChange = ch, notifUrl = url p\<rparr>"
  by (auto simp: sendNotification_def Let_def split: if_splits)

lemma sendRemaining_frame:
  "fetchCache (fst (sendRemaining w p chs c)) = fetchCache c
   \<and> newColorNotifiedProductIds (fst (sendRemaining w p chs c)) = newColorNotifiedProductIds c
   \<and> fetchLog (fst (sendRemaining w p chs c)) = fetchLog c"
proof (induction chs arbitrary: c)
  case Nil
  then show ?case by simp
next
  case (Cons ch chs)
  obtain c1 r where sn: "sendNotification w c p ch = (c1, r)"
    by (cases "sendNotification w c p ch")
  have fr: "fetchCache c1 = fetchCache c" "newColorNotifiedProductIds c1 = newColorNotifiedProductIds c"
    "fetchLog c1 = fetchLog c"
    using sendNotification_frame[of w c p ch] sn by simp_all
  show ?case
  proof (cases r)
    case (Inl e)
    then show ?thesis using sn fr by simp
  next
    case (Inr n)
    then show ?thesis
      using sn fr Cons.IH[of "c1\<lparr>pendingNotifications := pendingNotifications c1 @ [n]\<rparr>"]
      by simp
  qed
qed

lemma sendRemaining_pending:
  "\<exists>k. pendingNotifications (fst (sendRemaining w p chs c))
        = pendingNotifications c @ map (\<lambda>ch. \<lparr>notifChange = ch, notifUrl = url p\<rparr>) (take k chs)"
proof (induction chs arbitrary: c)
  case Nil
  then show ?case by simp
next
  case (Cons ch chs)
  obtain c1 r where sn: "sendNotification w c p ch = (c1, r)"
    by (cases "sendNotification w c p ch")
  have fr: "pendingNotifications c1 = pendingNotifications c"
    using sendNotification_frame[of w c p ch] sn by simp
  show ?case
  proof (cases r)
    case (Inl e)
    have "pendingNotifications (fst (sendRemaining w p (ch # chs) c))
        = pendingNotifications c @ map (\<lambda>ch. \<lparr>notifChange = ch, notifUrl = url p\<rparr>) (take 0 (ch # chs))"
      using Inl sn fr by simp
    then show ?thesis by blast
  next
    case (Inr n)
    have n: "n = \<lparr>notifChange = ch, notifUrl = url p\<rparr>"
      using sendNotification_Inr sn Inr by blast
    obtain k where k: "pendingNotifications (fst (sendRemaining w p chs (c1\<lparr>pendingNotifications := pendingNotifications c1 @ [n]\<rparr>)))
        = pendingNotifications (c1\<lparr>pendingNotifications := pendingNotifications c1 @ [n]\<rparr>)
          @ map (\<lambda>ch. \<lparr>notifChange = ch, notifUrl = url p\<rparr>) (take k chs)"
      using Cons.IH by blast
    have "pendingNotifications (fst (sendRemaining w p (ch # chs) c))
        = pendingNotifications c @ map (\<lambda>ch. \<lparr>notifChange = ch, notifUrl = url p\<rparr>) (take (Suc k) (ch # chs))"
      using Inr sn fr k n by simp
    then show ?thesis by blast
  qed
qed

lemma sendRemaining_ok:
  assumes ok: "\<forall>k. notifyOk w k"
  shows "snd (sendRemaining w p chs c) = None
    \<and> pendingNotifications (fst (sendRemaining w p chs c))
        = pendingNotifications c @ map (\<lambda>ch. \<lparr>notifChange = ch, notifUrl = url p\<rparr>) chs
    \<and> notifyCalls (fst (sendRemaining w p chs c)) = notifyCalls c + length chs"
proof (induction chs arbitrary: c)
  case Nil
  then show ?case by simp
next
  case (Cons ch chs)
  have sn: "sendNotification w c p ch
      = (c\<lparr>notifyCalls := Suc (notifyCalls c), ticks := Suc (ticks c)\<rparr>,
         Inr \<lparr>notifChange = ch, notifUrl = url p\<rparr>)"
    using ok by (simp add: sendNotification_def Let_def)
  show ?case
    using Cons.IH[of "c\<lparr>notifyCalls := Suc (notifyCalls c), ticks := Suc (ticks c),
        pendingNotifications := pendingNotifications c @ [\<lparr>notifChange = ch, notifUrl = url p\<rparr>]\<rparr>"]
    by (simp add: sn)
qed

lemma sendRemaining_Nil_calls:
  "notifyCalls (fst (sendRemaining w p [] c)) = notifyCalls c" by simp

lemma checkMarkdownTransition_result:
  "snd (checkMarkdownTransition w c p nd) = markdownResult w p nd"
  by (simp add: checkMarkdownTransition_def markdownResult_def split: option.splits)

lemma checkMarkdownTransition_frame:
  "fetchCache (fst (checkMarkdownTransition w c p nd)) = fetchCache c"
  "newColorNotifiedProductIds (fst (checkMarkdownTransition w c p nd)) = newColorNotifiedProductIds c"
  "pendingNotifications (fst (checkMarkdownTransition w c p nd)) = pendingNotifications c"
  "notifyCalls (fst (checkMarkdownTransition w c p nd)) = notifyCalls c"
  by (simp_all add: checkMarkdownTransition_def split: option.splits)

lemma checkMarkdownTransition_log:
  "fetchLog (fst (checkMarkdownTransition w c p nd)) = fetchLog c
   \<or> fetchLog (fst (checkMarkdownTransition w c p nd)) = fetchLog c @ [MarkdownFetch (insertMD (url p))]"
  by (cases "getColorCodeFromUrl (url p)") (simp_all add: checkMarkdownTransition_def)

lemma finishProduct_frame:
  "fetchCache (fst (finishProduct w c p nd mt chs)) = fetchCache c"
  "newColorNotifiedProductIds (fst (finishProduct w c p nd mt chs)) = newColorNotifiedProductIds c"
  "fetchLog (fst (finishProduct w c p nd mt chs)) = fetchLog c"
proof -
  obtain c1 r where sr: "sendRemaining w p chs c = (c1, r)" by (cases "sendRemaining w p chs c")
  have fr: "fetchCache c1 = fetchCache c" "newColorNotifiedProductIds c1 = newColorNotifiedProductIds c"
    "fetchLog c1 = fetchLog c"
    using sendRemaining_frame[of w p chs c] sr by simp_all
  show "fetchCache (fst (finishProduct w c p nd mt chs)) = fetchCache c"
    using sr fr by (cases r) (simp_all add: finishProduct_def)
  show "newColorNotifiedProductIds (fst (finishProduct w c p nd mt chs)) = newColorNotifiedProductIds c"
    using sr fr by (cases r) (simp_all add: finishProduct_def)
  show "fetchLog (fst (finishProduct w c p nd mt chs)) = fetchLog c"
    using sr fr by (cases r) (simp_all add: finishProduct_def)
qed

lemma finishMarkdown_frame:
  "fetchCache (fst (finishMarkdown w c p nd mt chs)) = fetchCache c"
  "newColorNotifiedProductIds (fst (finishMarkdown w c p nd mt chs)) = newColorNotifiedProductIds c"
  "fetchLog (fst (finishMarkdown w c p nd mt chs)) = fetchLog c"
proof -
  obtain c1 r where sn: "sendNotification w c p (mdChange mt) = (c1, r)"
    by (cases "sendNotification w c p (mdChange mt)")
  have fr: "fetchCache c1 = fetchCache c" "newColorNotifiedProductIds c1 = newColorNotifiedProductIds c"
    "fetchLog c1 = fetchLog c"
    using sendNotification_frame[of w c p "mdChange mt"] sn by simp_all
  show "fetchCache (fst (finishMarkdown w c p nd mt chs)) = fetchCache c"
    using sn fr by (cases r) (simp_all add: finishMarkdown_def finishProduct_frame)
  show "newColorNotifiedProductIds (fst (finishMarkdown w c p nd mt chs)) = newColorNotifiedProductIds c"
    using sn fr by (cases r) (simp_all add: finishMarkdown_def finishProduct_frame)
  show "fetchLog (fst (finishMarkdown w c p nd mt chs)) = fetchLog c"
    using sn fr by (cases r) (simp_all add: finishMarkdown_def finishProduct_frame)
qed

lemma markNewColorNotified_frame:
  "fetchCache (markNewColorNotified c p chs) = fetchCache c"
  "fetchLog (markNewColorNotified c p chs) = fetchLog c"
  "pendingNotifications (markNewColorNotified c p chs) = pendingNotifications c"
  "notifyCalls (markNewColorNotified c p chs) = notifyCalls c"
  by (simp_all add: markNewColorNotified_def)

text \<open>The body of the loop, with the markdown check named.\<close>

lemma processProduct_eq:
  "processProduct w c p nd =
     (let c1 = markNewColorNotified c p (changesOf c p nd);
          c2 = (if markdownCheckDue p (changesOf c p nd)
                then fst (checkMarkdownTransition w c1 p nd) else c1)
      in case transitionOf w c p nd of
           Some mt \<Rightarrow> finishMarkdown w c2 p nd mt (changesOf c p nd)
         | None \<Rightarrow> finishProduct w c2 p nd None (changesOf c p nd))"
proof -
  obtain c2 r where cm:
    "checkMarkdownTransition w (markNewColorNotified c p (changesOf c p nd)) p nd = (c2, r)"
    by (cases "checkMarkdownTransition w (markNewColorNotified c p (changesOf c p nd)) p nd")
  have r: "r = markdownResult w p nd"
    using checkMarkdownTransition_result[of w "markNewColorNotified c p (changesOf c p nd)" p nd] cm
    by simp
  show ?thesis
    unfolding processProduct_def Let_def transitionOf_def changesOf_def[symmetric] cm
    using r by (simp split: option.splits)
qed

lemma processProduct_cache:
  "fetchCache (fst (processProduct w c p nd)) = fetchCache c"
  unfolding processProduct_eq Let_def
  by (cases "transitionOf w c p nd")
     (simp_all add: finishProduct_frame finishMarkdown_frame checkMarkdownTransition_frame
        markNewColorNotified_frame)

subsection \<open>The snapshot and the cache of a turn\<close>

lemma getNewData_result: "snd (getNewData w c p) = newDataOf w (fetchCache c) p"
  by (simp add: getNewData_def newDataOf_def fetchProductStatus_def Let_def
        split: option.splits response.splits)

lemma getNewData_cache: "fetchCache (fst (getNewData w c p)) = cacheAfter w (fetchCache c) p"
  by (auto simp: getNewData_def newDataOf_def cacheAfter_def fetchProductStatus_def Let_def
        split: option.splits response.splits)

lemma getNewData_frame:
  "pendingNotifications (fst (getNewData w c p)) = pendingNotifications c"
  "newColorNotifiedProductIds (fst (getNewData w c p)) = newColorNotifiedProductIds c"
  "notifyCalls (fst (getNewData w c p)) = notifyCalls c"
  by (simp_all add: getNewData_def fetchProductStatus_def Let_def
        split: option.splits response.splits)

lemma getNewData_log:
  "fetchLog (fst (getNewData w c p)) =
     fetchLog c @ (if fetchCache c (baseUrlOf (url p)) = None then [ProductFetch (url p)] else [])"
  by (simp add: getNewData_def fetchProductStatus_def Let_def
        split: option.splits response.splits)

lemma newDataOf_None: "newDataOf w (fetchCache c) p = None \<longleftrightarrow> fetchFails w c p"
  by (simp add: newDataOf_def fetchFails_def fetchOk_def split: option.splits response.splits)

lemma newDataOf_valid:
  "validCache cache \<Longrightarrow> newDataOf w cache p = Some nd \<Longrightarrow> validStockStatus (nd_stockStatus nd)"
  by (auto simp: newDataOf_def validCache_def parseProductHtml_status
        split: option.splits response.splits if_splits)

lemma cacheAfter_valid: "validCache cache \<Longrightarrow> validCache (cacheAfter w cache p)"
proof (cases "newDataOf w cache p")
  case None
  assume "validCache cache"
  then show ?thesis using None by (simp add: cacheAfter_def)
next
  case (Some nd)
  assume v: "validCache cache"
  then have "validStockStatus (nd_stockStatus nd)" using newDataOf_valid Some by blast
  then show ?thesis using v Some by (simp add: cacheAfter_def validCache_def)
qed

lemma checkProduct_cache:
  "fetchCache (fst (checkProduct w c p)) = cacheAfter w (fetchCache c) p"
proof -
  obtain c1 r where g: "getNewData w c p = (c1, r)" by (cases "getNewData w c p")
  have c1: "fetchCache c1 = cacheAfter w (fetchCache c) p"
    using getNewData_cache[of w c p] g by simp
  show ?thesis
  proof (cases r)
    case None
    then show ?thesis using g c1 by (simp add: checkProduct_def)
  next
    case (Some nd)
    obtain c2 res where pp: "processProduct w c1 p nd = (c2, res)"
      by (cases "processProduct w c1 p nd")
    have "fetchCache c2 = fetchCache c1" using processProduct_cache[of w c1 p nd] pp by simp
    then show ?thesis using g c1 Some pp by (cases res) (simp_all add: checkProduct_def)
  qed
qed

lemma mergeProduct_status:
  "validStockStatus (nd_stockStatus nd) \<Longrightarrow> validStockStatus (stockStatus (mergeProduct w t p nd mt chs))"
  by (simp add: mergeProduct_def validStockStatus_def)

lemma checkProduct_status:
  assumes "validCache (fetchCache c)" and "validStockStatus (stockStatus p)"
  shows "validStockStatus (stockStatus (snd (checkProduct w c p)))"
proof -
  from checkProduct_cases[of w c p] show ?thesis
  proof
    assume "snd (checkProduct w c p) = p"
    then show ?thesis using assms by simp
  next
    assume "\<exists>nd t mt chs. snd (getNewData w c p) = Some nd \<and>
        snd (checkProduct w c p) = mergeProduct w t p nd mt chs"
    then obtain nd t mt chs where nd: "snd (getNewData w c p) = Some nd"
      and u: "snd (checkProduct w c p) = mergeProduct w t p nd mt chs" by blast
    have "validStockStatus (nd_stockStatus nd)"
      using nd assms(1) newDataOf_valid by (simp add: getNewData_result)
    then show ?thesis using u mergeProduct_status by simp
  qed
qed

lemma checkLoop_status:
  "validCache (fetchCache c) \<Longrightarrow> list_all (\<lambda>q. validStockStatus (stockStatus q)) ps
   \<Longrightarrow> list_all (\<lambda>q. validStockStatus (stockStatus q)) (snd (checkLoop w c ps))"
proof (induction ps arbitrary: c)
  case Nil
  then show ?case by simp
next
  case (Cons p ps)
  obtain c1 u where cp: "checkProduct w c p = (c1, u)" by (cases "checkProduct w c p")
  obtain c2 us where cl: "checkLoop w c1 ps = (c2, us)" by (cases "checkLoop w c1 ps")
  have vu: "validStockStatus (stockStatus u)"
    using checkProduct_status[of c p w] Cons.prems cp by simp
  have vc: "validCache (fetchCache c1)"
    using checkProduct_cache[of w c p] cacheAfter_valid Cons.prems(1) cp by simp
  have "list_all (\<lambda>q. validStockStatus (stockStatus q)) us"
    using Cons.IH[OF vc] Cons.prems(2) cl by simp
  then show ?case using cp cl vu by simp
qed

lemma emptyCycle_validCache: "validCache (fetchCache emptyCycle)"
  by (simp add: emptyCycle_def validCache_def)

text \<open>
  C8: the extractor produces one of the three stock statuses, and a cycle over products
  whose statuses are among the three stores products whose statuses are among the three.
\<close>

theorem C8_stock_status_closed:
  "validStockStatus (nd_stockStatus (parseProductHtml html p))
   \<and> validStockStatus (stockStatus (mergeProduct w t p (parseProductHtml html q) mt chs))
   \<and> (list_all (\<lambda>q. validStockStatus (stockStatus q)) (trackedProducts st)
      \<longrightarrow> list_all (\<lambda>q. validStockStatus (stockStatus q))
            (trackedProducts (fst (checkAllProducts w st))))"
  using checkAllProducts_tracked[of w st]
  by (auto simp: parseProductHtml_status mergeProduct_status
        runCycle_def checkLoop_status emptyCycle_validCache)

theorem C8_stock_status_closed_witness:
  "list_all (\<lambda>q. validStockStatus (stockStatus q)) [blackM, soldOutOnSale]
   \<and> list_all (\<lambda>q. validStockStatus (stockStatus q))
        (trackedProducts (fst (checkAllProducts mdWorld
           (emptyStore\<lparr>trackedProducts := [blackM, soldOutOnSale]\<rparr>))))
   \<and> nd_stockStatus (parseProductHtml gonePage blackM) = ''sold_out''"
proof -
  have v: "list_all (\<lambda>q. validStockStatus (stockStatus q)) [blackM, soldOutOnSale]"
    by (simp add: blackM_def soldOutOnSale_def validStockStatus_def)
  have s: "nd_stockStatus (parseProductHtml gonePage blackM) = ''sold_out''"
    by code_simp
  show ?thesis
    using v s C8_stock_status_closed[where w = mdWorld and st =
        "emptyStore\<lparr>trackedProducts := [blackM, soldOutOnSale]\<rparr>"]
    by simp
qed

subsection \<open>The badge\<close>

lemma alertCount_decompose:
  "alertCount ps = attentionCount ps
     + length (filter (\<lambda>p. (stockStatus p = ''low_stock'' \<or> stockStatus p = ''sold_out'')
                          \<and> onSale p) ps)"
  by (induction ps)
     (auto simp: alertCount_def stockAlerts_def saleAlerts_def attentionCount_def
        needsAttention_def)

text \<open>
  C9: the published attention count is the number of products that are low in stock, sold
  out or on sale. On the one product that is both sold out and on sale the badge shows 2.
\<close>

theorem C9_badge_counts_twice:
  "attentionCount [soldOutOnSale] = 1 \<and> alertCount [soldOutOnSale] = 2
   \<and> badgeText (updateBadge [soldOutOnSale] b) = Some 2"
  by (simp add: attentionCount_def needsAttention_def alertCount_def stockAlerts_def
        saleAlerts_def updateBadge_def soldOutOnSale_def blackM_def)

subsection \<open>New colours in the diff\<close>

text \<open>
  The new_color events of the diff: with trackNewColors set and a previous colour list
  (which may be empty), one event for each entry of the fresh list whose code is not among
  the previous codes; with tracking off or with an empty fresh list, none.
\<close>

lemma detectChanges_newColor:
  "filter isNewColor (detectChanges p nd) =
     (case availableColors p of
        Some oldColors \<Rightarrow>
          if trackNewColors p
          then map (\<lambda>c. NewColor (colorName c))
                 (filter (\<lambda>c. code c \<notin> set (map code oldColors)) (nd_availableColors nd))
          else []
      | None \<Rightarrow> [])
   \<and> filter isNewColor (detectChanges (p\<lparr>trackNewColors := False\<rparr>) nd) = []
   \<and> filter isNewColor (detectChanges p (nd\<lparr>nd_availableColors := []\<rparr>)) = []"
  by (simp add: detectChanges_def isNewColor_def filter_map comp_def
        split: option.splits)

lemma detectChanges_newColor_example:
  "filter isNewColor (detectChanges blackM (parseProductHtml salePage blackM))
     = [NewColor ''White'']"
  using detectChanges_newColor[of blackM "parseProductHtml salePage blackM"]
  by (simp add: blackM_def) code_simp

text \<open>
  C3: for a product with trackNewColors set the diff should announce a colour of the fresh
  list only when the previous list is non-empty and lacks its code. The code tests the
  previous list for presence only (an empty array is truthy), so a product stored with an
  empty colour list has every colour of the page announced, the tracked colour included:
  the diff yields a new_color event for Black and for White, and a cycle on that product
  sends and records both.
\<close>

theorem C3_empty_baseline_announces_all:
  "trackNewColors noColorsYet \<and> availableColors noColorsYet = Some []
   \<and> color noColorsYet = ''Black''
   \<and> filter isNewColor (detectChanges noColorsYet (parseProductHtml salePage noColorsYet))
       = [NewColor ''Black'', NewColor ''White'']
   \<and> filter isNewColor
         (map notifChange (notificationMap (fst (checkAllProducts saleWorld
            (emptyStore\<lparr>trackedProducts := [noColorsYet]\<rparr>)))))
       = [NewColor ''Black'', NewColor ''White'']"
  by code_simp

subsection \<open>The sale flag\<close>

lemma realPriceDrop_sku:
  "realPriceDrop (skuSalePrice pr) (skuListPrice pr) = nonZeroSaleBelowList pr"
  by (auto simp: realPriceDrop_def nonZeroSaleBelowList_def skuListPrice_def orNull_def
        split: option.splits)

lemma applySkuPrice_onSale:
  "nd_onSale (applySkuPrice pr r) = (nonZeroSaleBelowList pr \<or> nd_onSale r)"
  by (simp add: applySkuPrice_def Let_def realPriceDrop_sku)

lemma applyMatchingSku_onSale:
  "nd_onSale (applyMatchingSku m r) =
     ((case price m of Some pr \<Rightarrow> nonZeroSaleBelowList pr | None \<Rightarrow> False) \<or> nd_onSale r)"
  by (simp add: applyMatchingSku_def Let_def applySkuPrice_onSale split: option.splits)

lemma applyColorDriver_onSale: "nd_onSale (applyColorDriver p cc qd r) = nd_onSale r"
  by (simp add: applyColorDriver_def split: option.splits)

lemma applyNextData_onSale:
  assumes "\<not> nd_onSale r"
  shows "nd_onSale (applyNextData p qd r) =
     (case (getColorCodeFromUrl (url p), skus qd) of
        (Some colorCode, Some sks) \<Rightarrow>
          colorCode \<noteq> [] \<and>
          (case find (skuMatches p colorCode) sks of
             Some m \<Rightarrow> (case price m of Some pr \<Rightarrow> nonZeroSaleBelowList pr | None \<Rightarrow> False)
           | None \<Rightarrow> False)
      | _ \<Rightarrow> False)"
proof -
  define r1 where "r1 = (if (case productSummary qd of Some ps \<Rightarrow> isSoldOut ps | None \<Rightarrow> False)
                then r\<lparr>nd_stockStatus := ''sold_out''\<rparr> else r)"
  define r2 where "r2 = (case colors qd of Some cs \<Rightarrow> r1\<lparr>nd_availableColors := cs\<rparr> | None \<Rightarrow> r1)"
  define r3 where "r3 = (case (getColorCodeFromUrl (url p), skus qd) of
                  (Some colorCode, Some sks) \<Rightarrow>
                    if colorCode \<noteq> []
                    then (case find (skuMatches p colorCode) sks of
                            Some m \<Rightarrow> applyMatchingSku m r2
                          | None \<Rightarrow> applyColorDriver p colorCode qd r2)
                    else r2
                | _ \<Rightarrow> r2)"
  have s1: "\<not> nd_onSale r1" using assms by (simp add: r1_def)
  have s2: "\<not> nd_onSale r2" using s1 by (simp add: r2_def split: option.splits)
  have s3: "nd_onSale r3 =
     (case (getColorCodeFromUrl (url p), skus qd) of
        (Some colorCode, Some sks) \<Rightarrow>
          colorCode \<noteq> [] \<and>
          (case find (skuMatches p colorCode) sks of
             Some m \<Rightarrow> (case price m of Some pr \<Rightarrow> nonZeroSaleBelowList pr | None \<Rightarrow> False)
           | None \<Rightarrow> False)
      | _ \<Rightarrow> False)"
    using s2 by (simp add: r3_def applyMatchingSku_onSale applyColorDriver_onSale
        split: option.splits)
  have "applyNextData p qd r = (case skus qd of
           Some (s0 # rest) \<Rightarrow>
             if \<not> truthyNum (nd_currentPrice r3)
             then r3\<lparr>nd_currentPrice :=
                       orNull (parseFloat (case price s0 of Some pr \<Rightarrow> listPrice pr
                                           | None \<Rightarrow> Undefined))\<rparr>
             else r3
         | _ \<Rightarrow> r3)"
    unfolding applyNextData_def r1_def r2_def r3_def Let_def by (rule refl)
  then have "nd_onSale (applyNextData p qd r) = nd_onSale r3"
    by (simp split: option.splits list.splits)
  then show ?thesis using s3 by simp
qed

lemma applyColorVariants_onSale: "nd_onSale (applyColorVariants p vs r) = nd_onSale r"
  by (simp add: applyColorVariants_def Let_def split: list.splits option.splits)

lemma ldLoop_onSale: "nd_onSale (ldLoop p lds r) = nd_onSale r"
  by (induction p lds r rule: ldLoop.induct)
     (simp_all add: applyProductGroup_def Let_def applyColorVariants_onSale)

lemma textFallback_onSale: "nd_onSale (textFallback p html r) = nd_onSale r"
  by (simp add: textFallback_def Let_def)

lemma parseProductHtml_onSale:
  "nd_onSale (parseProductHtml html p) =
     (case matchingSkuPrice html p of Some pr \<Rightarrow> nonZeroSaleBelowList pr | None \<Rightarrow> False)"
proof -
  define result where "result = \<lparr>nd_currentPrice = None, nd_originalPrice = None, nd_onSale = False,
                    nd_stockStatus = ''in_stock'', nd_availableColors = []\<rparr>"
  define r1 where "r1 = (case nextDataMatch html of
                  Some (Parsed queries) \<Rightarrow>
                    (case findQueryData queries of
                       Some qd \<Rightarrow> applyNextData p qd result
                     | None \<Rightarrow> result)
                | _ \<Rightarrow> result)"
  define r2 where "r2 = (if isIntl p \<or> nextDataMatch html = None
                then ldLoop p (ldMatches html) r1 else r1)"
  define r3 where "r3 = textFallback p html r2"
  have s0: "\<not> nd_onSale result" by (simp add: result_def)
  have s1: "nd_onSale r1 =
     (case matchingSkuPrice html p of Some pr \<Rightarrow> nonZeroSaleBelowList pr | None \<Rightarrow> False)"
    using s0 by (simp add: r1_def matchingSkuPrice_def applyNextData_onSale
        split: option.splits parsed.splits)
  have s2: "nd_onSale r2 = nd_onSale r1" by (simp add: r2_def ldLoop_onSale)
  have s3: "nd_onSale r3 = nd_onSale r2" by (simp add: r3_def textFallback_onSale)
  have "parseProductHtml html p = (if \<not> truthyNum (nd_currentPrice r3)
         then (case priceMatch html of
                 Some pr \<Rightarrow> r3\<lparr>nd_currentPrice := Some pr\<rparr>
               | None \<Rightarrow> r3)
         else r3)"
    unfolding parseProductHtml_def result_def r1_def r2_def r3_def Let_def by (rule refl)
  then have "nd_onSale (parseProductHtml html p) = nd_onSale r3"
    by (simp split: option.splits)
  then show ?thesis using s1 s2 s3 by simp
qed

lemma mergeProduct_onSale: "onSale (mergeProduct w t p nd mt chs) = nd_onSale nd"
  by (simp add: mergeProduct_def)

lemma checkProduct_onSale:
  "snd (checkProduct w c p) = p
   \<or> (\<exists>nd. newDataOf w (fetchCache c) p = Some nd
            \<and> onSale (snd (checkProduct w c p)) = nd_onSale nd)"
  using checkProduct_cases[of w c p]
  by (auto simp: getNewData_result mergeProduct_onSale)

text \<open>
  The extractor sets onSale if and only if the SKU matching the tracked colour and size has
  a non-zero sale price strictly below its list price; the merge stores the snapshot's
  onSale.
\<close>

lemma onSale_extracted:
  "nd_onSale (parseProductHtml html p) =
     (case matchingSkuPrice html p of Some pr \<Rightarrow> nonZeroSaleBelowList pr | None \<Rightarrow> False)
   \<and> onSale (mergeProduct w t q (parseProductHtml html p) mt chs)
       = (case matchingSkuPrice html p of Some pr \<Rightarrow> nonZeroSaleBelowList pr | None \<Rightarrow> False)
   \<and> (snd (checkProduct w c q) = q
       \<or> (\<exists>nd. newDataOf w (fetchCache c) q = Some nd
                \<and> onSale (snd (checkProduct w c q)) = nd_onSale nd))"
  by (simp add: parseProductHtml_onSale mergeProduct_onSale checkProduct_onSale)

subsection \<open>Failures are isolated\<close>

lemma checkLoop_append:
  "checkLoop w c (xs @ ys) =
     (fst (checkLoop w (fst (checkLoop w c xs)) ys),
      snd (checkLoop w c xs) @ snd (checkLoop w (fst (checkLoop w c xs)) ys))"
proof (induction xs arbitrary: c)
  case Nil
  then show ?case by simp
next
  case (Cons x xs)
  obtain c1 u where cp: "checkProduct w c x = (c1, u)" by (cases "checkProduct w c x")
  show ?case using Cons.IH[of c1] cp by (simp split: prod.splits)
qed

lemma checkLoop_Cons:
  "snd (checkLoop w c (p # ps)) =
     snd (checkProduct w c p) # snd (checkLoop w (fst (checkProduct w c p)) ps)"
  by (simp split: prod.splits)

lemma checkLoop_length: "length (snd (checkLoop w c ps)) = length ps"
  using checkLoop_identity[of w c ps] by (metis length_map)

lemma fetchFails_keeps: "fetchFails w c p \<Longrightarrow> snd (checkProduct w c p) = p"
proof -
  assume "fetchFails w c p"
  then have "snd (getNewData w c p) = None"
    by (simp add: getNewData_result newDataOf_None)
  then show ?thesis by (cases "getNewData w c p") (simp add: checkProduct_def)
qed

lemma processingThrows_keeps: "processingThrows w c p \<Longrightarrow> snd (checkProduct w c p) = p"
  by (auto simp: processingThrows_def checkProduct_def split: prod.splits option.splits sum.splits)

text \<open>
  C7 (amended): when the fetch of a product's page fails (network error or HTTP status
  outside 200 to 299, and no cached snapshot), or the processing of the product throws, the
  product is pushed unchanged and the loop goes on with the products after it. No such
  failure reaches the caller: when the storage calls are fulfilled the run ends without an
  exception, whatever the fetches and the notifications do, and stores the list of the
  loop; in every case the stored list has one entry for each tracked product.
\<close>

theorem C7_failure_isolated:
  "(fetchFails w (fst (checkLoop w c xs)) p \<or> processingThrows w (fst (checkLoop w c xs)) p
    \<longrightarrow> snd (checkProduct w (fst (checkLoop w c xs)) p) = p
        \<and> snd (checkLoop w c (xs @ p # ys))
            = snd (checkLoop w c xs) @ p
              # snd (checkLoop w (fst (checkProduct w (fst (checkLoop w c xs)) p)) ys))
   \<and> ((\<forall>k. storageOk w k)
      \<longrightarrow> snd (checkAllProducts w st) = None
          \<and> trackedProducts (fst (checkAllProducts w st))
              = snd (runCycle w (trackedProducts st)))
   \<and> length (trackedProducts (fst (checkAllProducts w st))) = length (trackedProducts st)"
proof -
  have len: "length (trackedProducts (fst (checkAllProducts w st))) = length (trackedProducts st)"
    using checkAllProducts_tracked[of w st] by (auto simp: runCycle_def checkLoop_length)
  have "snd (checkProduct w (fst (checkLoop w c xs)) p) = p
        \<and> snd (checkLoop w c (xs @ p # ys))
            = snd (checkLoop w c xs) @ p
              # snd (checkLoop w (fst (checkProduct w (fst (checkLoop w c xs)) p)) ys)"
    if f: "fetchFails w (fst (checkLoop w c xs)) p \<or> processingThrows w (fst (checkLoop w c xs)) p"
  proof -
    have k: "snd (checkProduct w (fst (checkLoop w c xs)) p) = p"
      using f fetchFails_keeps processingThrows_keeps by blast
    show ?thesis using k by (simp add: checkLoop_append checkLoop_Cons del: checkLoop.simps)
  qed
  then show ?thesis using len checkAllProducts_ok[of w st] by blast
qed

theorem C7_failure_isolated_witness:
  "fetchFails offlineWorld emptyCycle blackM
   \<and> snd (checkLoop offlineWorld emptyCycle [blackM, blackS]) = [blackM, blackS]
   \<and> processingThrows flakyWorld emptyCycle blackM
   \<and> snd (checkLoop flakyWorld emptyCycle [blackM, soldOutOnSale])
       = [blackM, snd (checkProduct flakyWorld (fst (checkProduct flakyWorld emptyCycle blackM))
                         soldOutOnSale)]
   \<and> stockStatus (snd (checkProduct flakyWorld (fst (checkProduct flakyWorld emptyCycle blackM))
                         soldOutOnSale)) = ''in_stock''
   \<and> snd (checkAllProducts offlineWorld (emptyStore\<lparr>trackedProducts := [blackM, blackS]\<rparr>))
       = None
   \<and> trackedProducts
        (fst (checkAllProducts offlineWorld (emptyStore\<lparr>trackedProducts := [blackM, blackS]\<rparr>)))
       = [blackM, blackS]"
proof -
  have e: "fst (checkLoop w emptyCycle []) = emptyCycle" for w by simp
  have f: "fetchFails offlineWorld emptyCycle blackM"
    by code_simp
  have t: "processingThrows flakyWorld emptyCycle blackM"
    by code_simp
  have a: "snd (checkLoop offlineWorld emptyCycle ([] @ blackM # [blackS]))
      = snd (checkLoop offlineWorld emptyCycle []) @ blackM
        # snd (checkLoop offlineWorld (fst (checkProduct offlineWorld emptyCycle blackM)) [blackS])"
    using C7_failure_isolated[of offlineWorld emptyCycle "[]" blackM "[blackS]"] f
    unfolding e by blast
  have b: "snd (checkLoop flakyWorld emptyCycle ([] @ blackM # [soldOutOnSale]))
      = snd (checkLoop flakyWorld emptyCycle []) @ blackM
        # snd (checkLoop flakyWorld (fst (checkProduct flakyWorld emptyCycle blackM))
                 [soldOutOnSale])"
    using C7_failure_isolated[of flakyWorld emptyCycle "[]" blackM "[soldOutOnSale]"] t
    unfolding e by blast
  have s: "snd (checkLoop offlineWorld (fst (checkProduct offlineWorld emptyCycle blackM))
                 [blackS]) = [blackS]"
    by code_simp
  have s': "snd (checkLoop flakyWorld (fst (checkProduct flakyWorld emptyCycle blackM))
                 [soldOutOnSale])
      = [snd (checkProduct flakyWorld (fst (checkProduct flakyWorld emptyCycle blackM))
                soldOutOnSale)]"
    by (simp split: prod.splits)
  have u: "stockStatus (snd (checkProduct flakyWorld
                         (fst (checkProduct flakyWorld emptyCycle blackM)) soldOutOnSale))
       = ''in_stock''"
    by code_simp
  have a': "snd (checkLoop offlineWorld emptyCycle [blackM, blackS]) = [blackM, blackS]"
    using a unfolding s by simp
  have b': "snd (checkLoop flakyWorld emptyCycle [blackM, soldOutOnSale])
       = [blackM, snd (checkProduct flakyWorld (fst (checkProduct flakyWorld emptyCycle blackM))
                         soldOutOnSale)]"
    using b unfolding s' by simp
  have ok: "\<forall>k. storageOk offlineWorld k" by (simp add: offlineWorld_def)
  have tr: "trackedProducts (emptyStore\<lparr>trackedProducts := [blackM, blackS]\<rparr>) = [blackM, blackS]"
    by simp
  have st: "snd (checkAllProducts offlineWorld (emptyStore\<lparr>trackedProducts := [blackM, blackS]\<rparr>))
       = None
     \<and> trackedProducts
        (fst (checkAllProducts offlineWorld (emptyStore\<lparr>trackedProducts := [blackM, blackS]\<rparr>)))
       = snd (runCycle offlineWorld [blackM, blackS])"
    using C7_failure_isolated[where w = offlineWorld
        and st = "emptyStore\<lparr>trackedProducts := [blackM, blackS]\<rparr>"] ok
    unfolding tr by blast
  have rc: "snd (runCycle offlineWorld [blackM, blackS]) = [blackM, blackS]"
    using a' by (simp only: runCycle_def)
  show ?thesis using f t a' b' u st rc by simp
qed

text \<open>
  The claim as stated fails: the storage calls are outside the \<^verbatim>\<open>try\<close>, and a rejected
  one ends the run with its exception.
\<close>

theorem C7_counterexample:
  "snd (checkAllProducts quotaWorld (emptyStore\<lparr>trackedProducts := [blackM]\<rparr>))
     = Some StorageError"
  by code_simp

subsection \<open>One successful fetch for a page\<close>

lemma productFetches_append:
  "productFetches (xs @ ys) = productFetches xs @ productFetches ys"
  by (induction xs rule: productFetches.induct) simp_all

lemma checkMarkdownTransition_productFetches:
  "productFetches (fetchLog (fst (checkMarkdownTransition w c p nd))) = productFetches (fetchLog c)"
  using checkMarkdownTransition_log[of w c p nd]
  by (auto simp: productFetches_append)

lemma processProduct_productFetches:
  "productFetches (fetchLog (fst (processProduct w c p nd))) = productFetches (fetchLog c)"
  unfolding processProduct_eq Let_def
  by (cases "transitionOf w c p nd")
     (simp_all add: finishProduct_frame finishMarkdown_frame
        checkMarkdownTransition_productFetches markNewColorNotified_frame)

lemma checkProduct_productFetches:
  "productFetches (fetchLog (fst (checkProduct w c p))) =
     productFetches (fetchLog c)
     @ (if fetchCache c (baseUrlOf (url p)) = None then [url p] else [])"
proof -
  obtain c1 r where g: "getNewData w c p = (c1, r)" by (cases "getNewData w c p")
  have l1: "productFetches (fetchLog c1) = productFetches (fetchLog c)
     @ (if fetchCache c (baseUrlOf (url p)) = None then [url p] else [])"
    using getNewData_log[of w c p] g by (simp add: productFetches_append)
  show ?thesis
  proof (cases r)
    case None
    then show ?thesis using g l1 by (simp add: checkProduct_def)
  next
    case (Some nd)
    obtain c2 res where pp: "processProduct w c1 p nd = (c2, res)"
      by (cases "processProduct w c1 p nd")
    have "productFetches (fetchLog c2) = productFetches (fetchLog c1)"
      using processProduct_productFetches[of w c1 p nd] pp by simp
    then show ?thesis using g l1 Some pp by (cases res) (simp_all add: checkProduct_def)
  qed
qed

lemma cacheAfter_hit:
  "cache (baseUrlOf (url p)) \<noteq> None \<Longrightarrow> cacheAfter w cache p = cache"
  by (auto simp: cacheAfter_def newDataOf_def)

lemma cacheAfter_miss_ok:
  "cache (baseUrlOf (url p)) = None \<Longrightarrow> fetchOk w (url p)
   \<Longrightarrow> cacheAfter w cache p (baseUrlOf (url p)) \<noteq> None"
  by (auto simp: cacheAfter_def newDataOf_def fetchOk_def split: response.splits)

lemma cacheAfter_mono: "cache k \<noteq> None \<Longrightarrow> cacheAfter w cache p k \<noteq> None"
  by (auto simp: cacheAfter_def split: option.splits)

lemma checkProduct_fetchedOnce:
  assumes "fetchedOnce w c"
  shows "fetchedOnce w (fst (checkProduct w c p))"
proof -
  let ?c' = "fst (checkProduct w c p)"
  have cache: "fetchCache ?c' = cacheAfter w (fetchCache c) p" by (rule checkProduct_cache)
  have d: "distinct (okFetchKeys w c)"
    and i: "\<forall>k \<in> set (okFetchKeys w c). fetchCache c k \<noteq> None"
    using assms by (simp_all add: fetchedOnce_def)
  show ?thesis
  proof (cases "fetchCache c (baseUrlOf (url p)) = None \<and> fetchOk w (url p)")
    case False
    then have "okFetchKeys w ?c' = okFetchKeys w c"
      by (auto simp: okFetchKeys_def checkProduct_productFetches)
    then show ?thesis using d i cache cacheAfter_mono by (simp add: fetchedOnce_def)
  next
    case True
    then have k: "okFetchKeys w ?c' = okFetchKeys w c @ [baseUrlOf (url p)]"
      by (simp add: okFetchKeys_def checkProduct_productFetches)
    have new: "baseUrlOf (url p) \<notin> set (okFetchKeys w c)" using i True by auto
    have hit: "fetchCache ?c' (baseUrlOf (url p)) \<noteq> None"
      using cache cacheAfter_miss_ok True by simp
    show ?thesis using k d new i hit cache cacheAfter_mono by (auto simp: fetchedOnce_def)
  qed
qed

lemma checkLoop_fst_Cons:
  "fst (checkLoop w c (p # ps)) = fst (checkLoop w (fst (checkProduct w c p)) ps)"
  by (simp split: prod.splits)

lemma checkLoop_fetchedOnce:
  "fetchedOnce w c \<Longrightarrow> fetchedOnce w (fst (checkLoop w c ps))"
proof (induction ps arbitrary: c)
  case Nil
  then show ?case by simp
next
  case (Cons p ps)
  have "fetchedOnce w (fst (checkProduct w c p))"
    using checkProduct_fetchedOnce[OF Cons.prems] .
  then have "fetchedOnce w (fst (checkLoop w (fst (checkProduct w c p)) ps))" by (rule Cons.IH)
  then show ?case by (simp only: checkLoop_fst_Cons)
qed

lemma emptyCycle_fetchedOnce: "fetchedOnce w emptyCycle"
  by (simp add: fetchedOnce_def okFetchKeys_def emptyCycle_def)

text \<open>
  In a cycle the successful fetches of product pages by fetchProductStatus have pairwise
  different page keys; a product whose page key is in the cache issues no such fetch and
  works with the cached snapshot; so of two products with the same URL before the question
  mark, when the fetch for the first succeeds, the second issues none and reuses the first
  one's snapshot.
\<close>

lemma product_fetch_dedup:
  "distinct (okFetchKeys w (fst (runCycle w items)))
   \<and> (fetchCache c (baseUrlOf (url p)) = Some nd \<longrightarrow> getNewData w c p = (c, Some nd))
   \<and> (baseUrlOf (url p2) = baseUrlOf (url p1) \<and> fetchOk w (url p1) \<longrightarrow>
        productFetches (fetchLog (fst (runCycle w [p1, p2]))) = [url p1]
        \<and> newDataOf w (fetchCache (fst (checkProduct w emptyCycle p1))) p2
            = newDataOf w Map.empty p1)"
proof -
  have a: "distinct (okFetchKeys w (fst (runCycle w items)))"
    using checkLoop_fetchedOnce[OF emptyCycle_fetchedOnce, of w items]
    by (simp add: runCycle_def fetchedOnce_def)
  have b: "getNewData w c p = (c, Some nd)" if "fetchCache c (baseUrlOf (url p)) = Some nd"
    using that by (simp add: getNewData_def)
  have c: "productFetches (fetchLog (fst (runCycle w [p1, p2]))) = [url p1]
        \<and> newDataOf w (fetchCache (fst (checkProduct w emptyCycle p1))) p2
            = newDataOf w Map.empty p1"
    if same: "baseUrlOf (url p2) = baseUrlOf (url p1)" and ok: "fetchOk w (url p1)"
  proof -
    let ?c1 = "fst (checkProduct w emptyCycle p1)"
    have e: "fetchCache emptyCycle = Map.empty" "fetchLog emptyCycle = []"
      by (simp_all add: emptyCycle_def)
    obtain nd1 where nd1: "newDataOf w Map.empty p1 = Some nd1"
      using ok by (auto simp: newDataOf_def fetchOk_def split: response.splits)
    have cache1: "fetchCache ?c1 = Map.empty(baseUrlOf (url p1) \<mapsto> nd1)"
      using nd1 by (simp add: checkProduct_cache e cacheAfter_def)
    have log1: "productFetches (fetchLog ?c1) = [url p1]"
      by (simp add: checkProduct_productFetches e)
    have log2: "productFetches (fetchLog (fst (checkProduct w ?c1 p2))) = [url p1]"
      using cache1 same log1 by (simp add: checkProduct_productFetches)
    have "fst (runCycle w [p1, p2]) = fst (checkProduct w ?c1 p2)"
      by (simp add: runCycle_def split: prod.splits)
    moreover have "newDataOf w (fetchCache ?c1) p2 = Some nd1"
      using cache1 same by (simp add: newDataOf_def)
    ultimately show ?thesis using log2 nd1 by simp
  qed
  show ?thesis using a b c by blast
qed

subsection \<open>A turn whose notifications are all accepted\<close>

lemma finishProduct_ok:
  assumes ok: "\<forall>k. notifyOk w k"
  shows "(\<exists>t. snd (finishProduct w c p nd mt chs) = Inr (mergeProduct w t p nd mt chs))
    \<and> pendingNotifications (fst (finishProduct w c p nd mt chs))
        = pendingNotifications c @ map (\<lambda>ch. \<lparr>notifChange = ch, notifUrl = url p\<rparr>) chs
    \<and> notifyCalls (fst (finishProduct w c p nd mt chs)) = notifyCalls c + length chs"
proof -
  obtain c1 r where sr: "sendRemaining w p chs c = (c1, r)" by (cases "sendRemaining w p chs c")
  have r: "r = None"
    and p1: "pendingNotifications c1
        = pendingNotifications c @ map (\<lambda>ch. \<lparr>notifChange = ch, notifUrl = url p\<rparr>) chs"
    and n1: "notifyCalls c1 = notifyCalls c + length chs"
    using sendRemaining_ok[OF ok, of p chs c] sr by simp_all
  show ?thesis using sr r p1 n1 by (auto simp: finishProduct_def)
qed

lemma finishMarkdown_ok:
  assumes ok: "\<forall>k. notifyOk w k"
  shows "(\<exists>t. snd (finishMarkdown w c p nd mt chs)
            = Inr (mergeProduct w t p nd (Some mt) (filter (\<lambda>ch. \<not> isSoldOutChange ch) chs)))
    \<and> pendingNotifications (fst (finishMarkdown w c p nd mt chs))
        = pendingNotifications c @ [\<lparr>notifChange = mdChange mt, notifUrl = discountUrl mt\<rparr>]
          @ map (\<lambda>ch. \<lparr>notifChange = ch, notifUrl = url p\<rparr>)
              (filter (\<lambda>ch. \<not> isSoldOutChange ch) chs)
    \<and> notifyCalls (fst (finishMarkdown w c p nd mt chs))
        = Suc (notifyCalls c) + length (filter (\<lambda>ch. \<not> isSoldOutChange ch) chs)"
proof -
  have sn: "sendNotification w c p (mdChange mt)
      = (c\<lparr>notifyCalls := Suc (notifyCalls c), ticks := Suc (ticks c)\<rparr>,
         Inr \<lparr>notifChange = mdChange mt, notifUrl = url p\<rparr>)"
    using ok by (simp add: sendNotification_def Let_def)
  show ?thesis
    unfolding finishMarkdown_def sn
    using finishProduct_ok[OF ok, of "c\<lparr>notifyCalls := Suc (notifyCalls c), ticks := Suc (ticks c),
        pendingNotifications := pendingNotifications c
          @ [\<lparr>notifChange = mdChange mt, notifUrl = discountUrl mt\<rparr>]\<rparr>" p nd "Some mt"
        "filter (\<lambda>ch. \<not> isSoldOutChange ch) chs"]
    by simp
qed

lemma processProduct_ok:
  assumes ok: "\<forall>k. notifyOk w k"
  shows "(\<exists>t. snd (processProduct w c p nd)
            = Inr (mergeProduct w t p nd (transitionOf w c p nd) (remainingChanges w c p nd)))
    \<and> pendingNotifications (fst (processProduct w c p nd))
        = pendingNotifications c @ turnNotifications w c p nd
    \<and> notifyCalls (fst (processProduct w c p nd))
        = notifyCalls c + length (turnNotifications w c p nd)"
proof -
  define c1 where "c1 = markNewColorNotified c p (changesOf c p nd)"
  define c2 where "c2 = (if markdownCheckDue p (changesOf c p nd)
                then fst (checkMarkdownTransition w c1 p nd) else c1)"
  have pc2: "pendingNotifications c2 = pendingNotifications c"
    and nc2: "notifyCalls c2 = notifyCalls c"
    by (simp_all add: c2_def c1_def checkMarkdownTransition_frame markNewColorNotified_frame)
  have eq: "processProduct w c p nd =
      (case transitionOf w c p nd of
           Some mt \<Rightarrow> finishMarkdown w c2 p nd mt (changesOf c p nd)
         | None \<Rightarrow> finishProduct w c2 p nd None (changesOf c p nd))"
    unfolding processProduct_eq Let_def c2_def c1_def by (rule refl)
  show ?thesis
  proof (cases "transitionOf w c p nd")
    case None
    then show ?thesis
      using finishProduct_ok[OF ok, of c2 p nd None "changesOf c p nd"] eq pc2 nc2
      by (simp add: turnNotifications_def remainingChanges_def)
  next
    case (Some mt)
    then show ?thesis
      using finishMarkdown_ok[OF ok, of c2 p nd mt "changesOf c p nd"] eq pc2 nc2
      by (simp add: turnNotifications_def remainingChanges_def)
  qed
qed

lemma processProduct_notified:
  "newColorNotifiedProductIds (fst (processProduct w c p nd))
     = newColorNotifiedProductIds (markNewColorNotified c p (changesOf c p nd))"
  unfolding processProduct_eq Let_def
  by (cases "transitionOf w c p nd")
     (simp_all add: finishProduct_frame finishMarkdown_frame checkMarkdownTransition_frame)

text \<open>What a turn depends on in the cycle state: the set of announced product lines.\<close>

lemma changesOf_cong:
  "newColorNotifiedProductIds c' = newColorNotifiedProductIds c
   \<Longrightarrow> changesOf c' p nd = changesOf c p nd"
  by (simp add: changesOf_def dedupNewColor_def)

lemma transitionOf_cong:
  "newColorNotifiedProductIds c' = newColorNotifiedProductIds c
   \<Longrightarrow> transitionOf w c' p nd = transitionOf w c p nd"
  using changesOf_cong[of c' c p nd] by (simp add: transitionOf_def)

lemma remainingChanges_cong:
  "newColorNotifiedProductIds c' = newColorNotifiedProductIds c
   \<Longrightarrow> remainingChanges w c' p nd = remainingChanges w c p nd"
  using changesOf_cong[of c' c p nd] transitionOf_cong[of c' c w p nd]
  by (simp add: remainingChanges_def)

lemma turnNotifications_cong:
  "newColorNotifiedProductIds c' = newColorNotifiedProductIds c
   \<Longrightarrow> turnNotifications w c' p nd = turnNotifications w c p nd"
  using remainingChanges_cong[of c' c w p nd] transitionOf_cong[of c' c w p nd]
  by (simp add: turnNotifications_def)

lemma markNewColorNotified_ids_cong:
  "newColorNotifiedProductIds c' = newColorNotifiedProductIds c
   \<Longrightarrow> newColorNotifiedProductIds (markNewColorNotified c' p chs)
       = newColorNotifiedProductIds (markNewColorNotified c p chs)"
  by (simp add: markNewColorNotified_def)

text \<open>One turn of the loop when every notification is accepted.\<close>

lemma checkProduct_ok:
  assumes ok: "\<forall>k. notifyOk w k"
  shows "(case newDataOf w (fetchCache c) p of
            None \<Rightarrow>
              snd (checkProduct w c p) = p
              \<and> pendingNotifications (fst (checkProduct w c p)) = pendingNotifications c
              \<and> notifyCalls (fst (checkProduct w c p)) = notifyCalls c
              \<and> newColorNotifiedProductIds (fst (checkProduct w c p))
                  = newColorNotifiedProductIds c
          | Some nd \<Rightarrow>
              (\<exists>t. snd (checkProduct w c p)
                     = mergeProduct w t p nd (transitionOf w c p nd) (remainingChanges w c p nd))
              \<and> pendingNotifications (fst (checkProduct w c p))
                  = pendingNotifications c @ turnNotifications w c p nd
              \<and> notifyCalls (fst (checkProduct w c p))
                  = notifyCalls c + length (turnNotifications w c p nd)
              \<and> newColorNotifiedProductIds (fst (checkProduct w c p))
                  = newColorNotifiedProductIds (markNewColorNotified c p (changesOf c p nd)))"
proof -
  obtain c1 r where g: "getNewData w c p = (c1, r)" by (cases "getNewData w c p")
  have r: "r = newDataOf w (fetchCache c) p" using getNewData_result[of w c p] g by simp
  have fr: "pendingNotifications c1 = pendingNotifications c"
    "newColorNotifiedProductIds c1 = newColorNotifiedProductIds c"
    "notifyCalls c1 = notifyCalls c"
    using getNewData_frame[of w c p] g by simp_all
  show ?thesis
  proof (cases r)
    case None
    then show ?thesis using g r fr by (simp add: checkProduct_def)
  next
    case (Some nd)
    obtain c2 res where pp: "processProduct w c1 p nd = (c2, res)"
      by (cases "processProduct w c1 p nd")
    obtain t where res: "res = Inr (mergeProduct w t p nd (transitionOf w c1 p nd)
                                     (remainingChanges w c1 p nd))"
      using processProduct_ok[OF ok, of c1 p nd] pp by auto
    have p2: "pendingNotifications c2 = pendingNotifications c1 @ turnNotifications w c1 p nd"
      and n2: "notifyCalls c2 = notifyCalls c1 + length (turnNotifications w c1 p nd)"
      using processProduct_ok[OF ok, of c1 p nd] pp by simp_all
    have i2: "newColorNotifiedProductIds c2
        = newColorNotifiedProductIds (markNewColorNotified c1 p (changesOf c1 p nd))"
      using processProduct_notified[of w c1 p nd] pp by simp
    have cp: "checkProduct w c p = (c2, mergeProduct w t p nd (transitionOf w c1 p nd)
                                     (remainingChanges w c1 p nd))"
      using g Some pp res by (simp add: checkProduct_def)
    show ?thesis
      using Some r[symmetric] cp p2 n2 i2 fr
        transitionOf_cong[OF fr(2)] remainingChanges_cong[OF fr(2)]
        turnNotifications_cong[OF fr(2)] changesOf_cong[OF fr(2)]
        markNewColorNotified_ids_cong[OF fr(2)]
      by auto
  qed
qed

subsection \<open>One new-colour notification for a product line\<close>



lemma isNewColor_others:
  "isNewColor ch \<Longrightarrow> \<not> isSoldOutChange ch"
  "isNewColor ch \<Longrightarrow> \<not> isMovedToMarkdown ch"
  "isNewColor ch \<Longrightarrow> \<not> isStatusChange ch"
  by (cases ch; simp add: isNewColor_def isSoldOutChange_def isMovedToMarkdown_def
        isStatusChange_def)+














subsection \<open>The markdown transition\<close>

lemma detectChanges_statusChanges:
  "filter isStatusChange (detectChanges p nd) =
     (if stockStatus p \<noteq> nd_stockStatus nd
      then [StatusChange (stockStatus p) (nd_stockStatus nd)] else [])"
  by (simp add: detectChanges_def isStatusChange_def filter_map comp_def split: option.splits)

lemma detectChanges_noMarkdown: "filter isMovedToMarkdown (detectChanges p nd) = []"
  by (simp add: detectChanges_def isMovedToMarkdown_def filter_map comp_def split: option.splits)

lemma detectChanges_soldOut:
  "list_ex isSoldOutChange (detectChanges p nd)
     = (stockStatus p \<noteq> nd_stockStatus nd \<and> nd_stockStatus nd = ''sold_out'')"
  by (auto simp: detectChanges_def isSoldOutChange_def list_ex_iff split: option.splits)

lemma dedupNewColor_filter:
  "(\<And>ch. P ch \<Longrightarrow> \<not> isNewColor ch)
   \<Longrightarrow> filter P (dedupNewColor c p chs) = filter P chs"
proof -
  assume a: "\<And>ch. P ch \<Longrightarrow> \<not> isNewColor ch"
  have "filter P (filter (\<lambda>ch. \<not> isNewColor ch) chs) = filter P chs"
    by (induction chs) (auto dest: a)
  then show ?thesis by (simp add: dedupNewColor_def)
qed

lemma notNew:
  "isStatusChange ch \<Longrightarrow> \<not> isNewColor ch"
  "isMovedToMarkdown ch \<Longrightarrow> \<not> isNewColor ch"
  "isSoldOutChange ch \<Longrightarrow> \<not> isNewColor ch"
  using isNewColor_others by blast+

lemma changesOf_statusChanges:
  "filter isStatusChange (changesOf c p nd) =
     (if stockStatus p \<noteq> nd_stockStatus nd
      then [StatusChange (stockStatus p) (nd_stockStatus nd)] else [])"
  unfolding changesOf_def
  using dedupNewColor_filter[of isStatusChange c p "detectChanges p nd"] notNew(1)
  by (simp add: detectChanges_statusChanges)

lemma changesOf_noMarkdown: "filter isMovedToMarkdown (changesOf c p nd) = []"
  unfolding changesOf_def
  using dedupNewColor_filter[of isMovedToMarkdown c p "detectChanges p nd"] notNew(2)
  by (simp add: detectChanges_noMarkdown)

lemma changesOf_soldOut:
  "list_ex isSoldOutChange (changesOf c p nd)
     = (stockStatus p \<noteq> nd_stockStatus nd \<and> nd_stockStatus nd = ''sold_out'')"
proof -
  have "filter isSoldOutChange (changesOf c p nd) = filter isSoldOutChange (detectChanges p nd)"
    unfolding changesOf_def
    using dedupNewColor_filter[of isSoldOutChange c p "detectChanges p nd"] notNew(3) by simp
  then have "list_ex isSoldOutChange (changesOf c p nd)
      = list_ex isSoldOutChange (detectChanges p nd)"
    by (metis filter_empty_conv list_ex_iff)
  then show ?thesis by (simp add: detectChanges_soldOut)
qed

lemma parseFloat_truthy: "parseFloat v = Some r \<Longrightarrow> r \<noteq> 0 \<Longrightarrow> truthy v"
  by (cases v) auto

lemma skuListPrice_Some:
  "skuListPrice pr = Some l \<Longrightarrow> truthy (listPrice pr) \<and> parseFloat (listPrice pr) = Some l \<and> l \<noteq> 0"
  by (auto simp: skuListPrice_def orNull_def split: if_splits option.splits
        dest: parseFloat_truthy)

lemma find_list_ex: "list_ex P xs \<Longrightarrow> find P xs \<noteq> None"
  by (induction xs) auto

text \<open>The markdown page offers the tracked colour at a sale and a list price.\<close>

lemma markdownFromQueryData_offer:
  assumes "colors mdq = Some cs" and "list_ex (\<lambda>col. code col = C) cs"
    and "skus mdq = Some sks" and "find (skuMatches p C) sks = Some s" and "price s = Some pr"
    and "skuSalePrice pr = Some sale" and "sale \<noteq> 0" and "skuListPrice pr = Some list"
  shows "markdownFromQueryData p C mdq
     = Some \<lparr>discountUrl = discountUrlOf p C mdq,
             mdChange = MovedToMarkdown (Known sale) (Known list)\<rparr>"
proof -
  obtain col where f: "find (\<lambda>col. code col = C) cs = Some col"
    using find_list_ex[OF assms(2)] by auto
  have l: "truthy (listPrice pr)" "parseFloat (listPrice pr) = Some list" "list \<noteq> 0"
    using skuListPrice_Some[OF assms(8)] by simp_all
  have s: "(if truthy (salePrice pr) then parseFloat (salePrice pr) else None) = Some sale"
    using assms(6) by (simp add: skuSalePrice_def)
  show ?thesis
    unfolding markdownFromQueryData_def Let_def
    using assms(1,3,4,5,7) f l s by (simp add: orUnknown_def)
qed

text \<open>
  A tracked product on a normal page (its URL carries the colour code C and is neither
  a markdown nor an international URL) whose previous state lists C and is not sold out;
  the fresh snapshot lacks C and is sold out; the markdown page lists C and its SKU for the
  tracked size has sale price 40 and list price 60; notifications are accepted. The turn
  of the loop for the product then creates exactly one moved_to_markdown notification, with
  prices 40 and 60 and the synthesized URL, and no status_change notification, and stores
  the product with stockStatus in_stock and markdownUrl the synthesized URL.
\<close>

lemma markdown_turn:
  "(\<forall>k. notifyOk w k) \<and> newDataOf w (fetchCache c) p = Some nd
   \<and> getColorCodeFromUrl (url p) = Some C \<and> C \<noteq> []
   \<and> \<not> includesStr (url p) ''-MD/'' \<and> \<not> includesStr (url p) ''.html''
   \<and> availableColors p = Some old \<and> list_ex (\<lambda>col. code col = C) old
   \<and> stockStatus p \<noteq> ''sold_out''
   \<and> \<not> list_ex (\<lambda>col. code col = C) (nd_availableColors nd)
   \<and> nd_stockStatus nd = ''sold_out''
   \<and> markdownQueryData w p = Some mdq \<and> colors mdq = Some cs
   \<and> list_ex (\<lambda>col. code col = C) cs
   \<and> skus mdq = Some sks \<and> find (skuMatches p C) sks = Some s \<and> price s = Some pr
   \<and> skuSalePrice pr = Some 40 \<and> skuListPrice pr = Some 60
   \<longrightarrow> filter (\<lambda>n. isMovedToMarkdown (notifChange n))
          (drop (length (pendingNotifications c))
             (pendingNotifications (fst (checkProduct w c p))))
        = [\<lparr>notifChange = MovedToMarkdown (Known 40) (Known 60),
            notifUrl = discountUrlOf p C mdq\<rparr>]
      \<and> filter (\<lambda>n. isStatusChange (notifChange n))
          (drop (length (pendingNotifications c))
             (pendingNotifications (fst (checkProduct w c p)))) = []
      \<and> stockStatus (snd (checkProduct w c p)) = ''in_stock''
      \<and> markdownUrl (snd (checkProduct w c p)) = Some (discountUrlOf p C mdq)"
proof (intro impI, elim conjE)
  assume ok: "\<forall>k. notifyOk w k" and nd: "newDataOf w (fetchCache c) p = Some nd"
    and cc: "getColorCodeFromUrl (url p) = Some C" "C \<noteq> []"
    and u: "\<not> includesStr (url p) ''-MD/''" "\<not> includesStr (url p) ''.html''"
    and st: "stockStatus p \<noteq> ''sold_out''" "nd_stockStatus nd = ''sold_out''"
    and gone: "\<not> list_ex (\<lambda>col. code col = C) (nd_availableColors nd)"
    and md: "markdownQueryData w p = Some mdq" "colors mdq = Some cs"
      "list_ex (\<lambda>col. code col = C) cs" "skus mdq = Some sks"
      "find (skuMatches p C) sks = Some s" "price s = Some pr"
      "skuSalePrice pr = Some 40" "skuListPrice pr = Some 60"
  let ?mt = "\<lparr>discountUrl = discountUrlOf p C mdq,
              mdChange = MovedToMarkdown (Known 40) (Known 60)\<rparr>"
  have due: "markdownCheckDue p (changesOf c p nd)"
    using u st by (simp add: markdownCheckDue_def changesOf_soldOut)
  have res: "markdownResult w p nd = Some ?mt"
    using cc gone md(1) markdownFromQueryData_offer[OF md(2,3,4,5,6,7) _ md(8)]
    by (simp add: markdownResult_def markdownPage_def)
  have tr: "transitionOf w c p nd = Some ?mt"
    using due res by (simp add: transitionOf_def)
  have rem: "remainingChanges w c p nd = filter (\<lambda>ch. \<not> isSoldOutChange ch) (changesOf c p nd)"
    using tr by (simp add: remainingChanges_def)
  have remStatus: "filter isStatusChange (remainingChanges w c p nd) = []"
  proof -
    have "filter isStatusChange (remainingChanges w c p nd)
        = filter (\<lambda>ch. \<not> isSoldOutChange ch) (filter isStatusChange (changesOf c p nd))"
      unfolding rem by (simp add: conj_commute)
    then show ?thesis using st by (simp add: changesOf_statusChanges isSoldOutChange_def)
  qed
  have remMd: "filter isMovedToMarkdown (remainingChanges w c p nd) = []"
  proof -
    have "filter isMovedToMarkdown (remainingChanges w c p nd)
        = filter (\<lambda>ch. \<not> isSoldOutChange ch) (filter isMovedToMarkdown (changesOf c p nd))"
      unfolding rem by (simp add: conj_commute)
    then show ?thesis by (simp add: changesOf_noMarkdown)
  qed
  have turn: "turnNotifications w c p nd
      = \<lparr>notifChange = MovedToMarkdown (Known 40) (Known 60), notifUrl = discountUrlOf p C mdq\<rparr>
        # map (\<lambda>ch. \<lparr>notifChange = ch, notifUrl = url p\<rparr>) (remainingChanges w c p nd)"
    using tr by (simp add: turnNotifications_def)
  have pend: "drop (length (pendingNotifications c)) (pendingNotifications (fst (checkProduct w c p)))
      = turnNotifications w c p nd"
    using checkProduct_ok[OF ok, of c p] nd by simp
  obtain t where merged: "snd (checkProduct w c p)
      = mergeProduct w t p nd (Some ?mt) (remainingChanges w c p nd)"
    using checkProduct_ok[OF ok, of c p] nd tr by auto
  have isMd: "isMovedToMarkdown (MovedToMarkdown a b)" "\<not> isStatusChange (MovedToMarkdown a b)"
    for a b
    by (simp_all add: isMovedToMarkdown_def isStatusChange_def)
  have f1: "filter (\<lambda>n. isMovedToMarkdown (notifChange n)) (turnNotifications w c p nd)
      = [\<lparr>notifChange = MovedToMarkdown (Known 40) (Known 60), notifUrl = discountUrlOf p C mdq\<rparr>]"
    unfolding turn using remMd isMd
    by (simp add: filter_map comp_def)
  have f2: "filter (\<lambda>n. isStatusChange (notifChange n)) (turnNotifications w c p nd) = []"
    unfolding turn using remStatus isMd
    by (simp add: filter_map comp_def)
  show "filter (\<lambda>n. isMovedToMarkdown (notifChange n))
          (drop (length (pendingNotifications c))
             (pendingNotifications (fst (checkProduct w c p))))
        = [\<lparr>notifChange = MovedToMarkdown (Known 40) (Known 60),
            notifUrl = discountUrlOf p C mdq\<rparr>]
      \<and> filter (\<lambda>n. isStatusChange (notifChange n))
          (drop (length (pendingNotifications c))
             (pendingNotifications (fst (checkProduct w c p)))) = []
      \<and> stockStatus (snd (checkProduct w c p)) = ''in_stock''
      \<and> markdownUrl (snd (checkProduct w c p)) = Some (discountUrlOf p C mdq)"
    unfolding pend merged using f1 f2 by (simp add: mergeProduct_def)
qed

subsection \<open>A second run against unchanged pages\<close>































subsection \<open>Every fetch of a cycle\<close>

lemma fetchedUrls_append: "fetchedUrls (xs @ ys) = fetchedUrls xs @ fetchedUrls ys"
  by (induction xs rule: fetchedUrls.induct) simp_all

lemma startsWith_takeWhile:
  "startsWith (takeWhile P s) pre \<Longrightarrow> pre \<noteq> [] \<Longrightarrow> startsWith s pre"
proof (induction s arbitrary: pre)
  case Nil
  then show ?case by (simp add: startsWith_def)
next
  case (Cons c cs)
  show ?case
  proof (cases "P c")
    case False
    then show ?thesis using Cons.prems by (simp add: startsWith_def)
  next
    case True
    obtain a as where pre: "pre = a # as" using Cons.prems(2) by (cases pre) auto
    have "a = c" and t: "take (length as) (takeWhile P cs) = as"
      using Cons.prems(1) True by (simp_all add: startsWith_def pre)
    show ?thesis
    proof (cases "as = []")
      case True
      then show ?thesis using \<open>a = c\<close> by (simp add: startsWith_def pre)
    next
      case False
      have "startsWith (takeWhile P cs) as" using t by (simp add: startsWith_def)
      then have "startsWith cs as" using Cons.IH False by blast
      then show ?thesis using \<open>a = c\<close> by (simp add: startsWith_def pre)
    qed
  qed
qed

text \<open>A URL with \<^verbatim>\<open>/_/\<close> before its question mark: the markdown URL is another page key.\<close>

lemma insertMD_longer:
  "includesStr (baseUrlOf u) ''/_/''
   \<Longrightarrow> length (baseUrlOf (insertMD u)) = length (baseUrlOf u) + 3"
proof (induction u)
  case Nil
  then show ?case by (simp add: baseUrlOf_def)
next
  case (Cons c cs)
  show ?case
  proof (cases "startsWith (c # cs) ''/_/''")
    case True
    then show ?thesis by (simp add: baseUrlOf_def)
  next
    case False
    have q: "c \<noteq> CHR ''?''"
      using Cons.prems by (auto simp: baseUrlOf_def)
    have "\<not> startsWith (baseUrlOf (c # cs)) ''/_/''"
      using False startsWith_takeWhile[of "\<lambda>c. c \<noteq> CHR ''?''" "c # cs" "''/_/''"]
      by (auto simp: baseUrlOf_def)
    then have "includesStr (baseUrlOf cs) ''/_/''"
      using Cons.prems q by (simp add: baseUrlOf_def)
    then have "length (baseUrlOf (insertMD cs)) = length (baseUrlOf cs) + 3"
      by (rule Cons.IH)
    then show ?thesis using False q by (simp add: baseUrlOf_def)
  qed
qed

lemma insertMD_other_key:
  "includesStr (baseUrlOf u) ''/_/'' \<Longrightarrow> baseUrlOf (insertMD u) \<noteq> baseUrlOf u"
  using insertMD_longer[of u] by auto

lemma processProduct_log:
  "fetchLog (fst (processProduct w c p nd)) = fetchLog c
   \<or> fetchLog (fst (processProduct w c p nd)) = fetchLog c @ [MarkdownFetch (insertMD (url p))]"
proof -
  let ?c1 = "markNewColorNotified c p (changesOf c p nd)"
  have l: "fetchLog (fst (checkMarkdownTransition w ?c1 p nd)) = fetchLog c
      \<or> fetchLog (fst (checkMarkdownTransition w ?c1 p nd))
          = fetchLog c @ [MarkdownFetch (insertMD (url p))]"
    using checkMarkdownTransition_log[of w ?c1 p nd] by (simp add: markNewColorNotified_frame)
  show ?thesis
    unfolding processProduct_eq Let_def
    using l
    by (cases "transitionOf w c p nd")
       (auto simp: finishProduct_frame finishMarkdown_frame markNewColorNotified_frame)
qed

lemma checkProduct_log:
  "\<exists>mf. (mf = [] \<or> mf = [insertMD (url p)])
     \<and> fetchedUrls (fetchLog (fst (checkProduct w c p)))
         = fetchedUrls (fetchLog c)
           @ (if fetchCache c (baseUrlOf (url p)) = None then [url p] else []) @ mf"
proof -
  obtain c1 r where g: "getNewData w c p = (c1, r)" by (cases "getNewData w c p")
  have l1: "fetchedUrls (fetchLog c1) = fetchedUrls (fetchLog c)
     @ (if fetchCache c (baseUrlOf (url p)) = None then [url p] else [])"
    using getNewData_log[of w c p] g by (simp add: fetchedUrls_append)
  show ?thesis
  proof (cases r)
    case None
    then have "fetchedUrls (fetchLog (fst (checkProduct w c p)))
         = fetchedUrls (fetchLog c)
           @ (if fetchCache c (baseUrlOf (url p)) = None then [url p] else []) @ []"
      using g l1 by (simp add: checkProduct_def)
    then show ?thesis by blast
  next
    case (Some nd)
    obtain c2 res where pp: "processProduct w c1 p nd = (c2, res)"
      by (cases "processProduct w c1 p nd")
    have c2: "fst (checkProduct w c p) = c2"
      using g Some pp by (cases res) (simp_all add: checkProduct_def)
    have "fetchLog c2 = fetchLog c1 \<or> fetchLog c2 = fetchLog c1 @ [MarkdownFetch (insertMD (url p))]"
      using processProduct_log[of w c1 p nd] pp by simp
    then show ?thesis
    proof
      assume "fetchLog c2 = fetchLog c1"
      then have "fetchedUrls (fetchLog (fst (checkProduct w c p)))
         = fetchedUrls (fetchLog c)
           @ (if fetchCache c (baseUrlOf (url p)) = None then [url p] else []) @ []"
        using c2 l1 by simp
      then show ?thesis by blast
    next
      assume "fetchLog c2 = fetchLog c1 @ [MarkdownFetch (insertMD (url p))]"
      then have "fetchedUrls (fetchLog (fst (checkProduct w c p)))
         = fetchedUrls (fetchLog c)
           @ (if fetchCache c (baseUrlOf (url p)) = None then [url p] else [])
           @ [insertMD (url p)]"
        using c2 l1 by (simp add: fetchedUrls_append)
      then show ?thesis by blast
    qed
  qed
qed

text \<open>The fetches of a product's own page key that its turn adds to the log.\<close>

lemma checkProduct_page_fetches:
  assumes "includesStr (baseUrlOf (url p)) ''/_/''"
  shows "filter (\<lambda>u. baseUrlOf u = baseUrlOf (url p))
           (fetchedUrls (fetchLog (fst (checkProduct w c p))))
     = filter (\<lambda>u. baseUrlOf u = baseUrlOf (url p)) (fetchedUrls (fetchLog c))
       @ (if fetchCache c (baseUrlOf (url p)) = None then [url p] else [])"
proof -
  obtain mf where mf: "mf = [] \<or> mf = [insertMD (url p)]"
    and l: "fetchedUrls (fetchLog (fst (checkProduct w c p)))
         = fetchedUrls (fetchLog c)
           @ (if fetchCache c (baseUrlOf (url p)) = None then [url p] else []) @ mf"
    using checkProduct_log[of p w c] by blast
  have "filter (\<lambda>u. baseUrlOf u = baseUrlOf (url p)) mf = []"
    using mf insertMD_other_key[OF assms] by auto
  then show ?thesis unfolding l by simp
qed

lemma two_products_one_fetch:
  assumes same: "baseUrlOf (url p2) = baseUrlOf (url p1)" and ok: "fetchOk w (url p1)"
    and sl: "includesStr (baseUrlOf (url p1)) ''/_/''"
  shows "filter (\<lambda>u. baseUrlOf u = baseUrlOf (url p1))
           (fetchedUrls (fetchLog (fst (runCycle w [p1, p2])))) = [url p1]"
proof -
  let ?c1 = "fst (checkProduct w emptyCycle p1)"
  have e: "fetchCache emptyCycle = Map.empty" "fetchLog emptyCycle = []"
    by (simp_all add: emptyCycle_def)
  have hit: "fetchCache ?c1 (baseUrlOf (url p2)) \<noteq> None"
    unfolding checkProduct_cache same
    using cacheAfter_miss_ok[of "fetchCache emptyCycle" p1 w] ok by (simp add: e)
  have l1: "filter (\<lambda>u. baseUrlOf u = baseUrlOf (url p1)) (fetchedUrls (fetchLog ?c1)) = [url p1]"
    using checkProduct_page_fetches[OF sl, of w emptyCycle] by (simp add: e)
  have sl2: "includesStr (baseUrlOf (url p2)) ''/_/''" using sl same by simp
  have l2: "filter (\<lambda>u. baseUrlOf u = baseUrlOf (url p1))
           (fetchedUrls (fetchLog (fst (checkProduct w ?c1 p2)))) = [url p1]"
    using checkProduct_page_fetches[OF sl2, of w ?c1] hit l1 same by simp
  have "fst (runCycle w [p1, p2]) = fst (checkProduct w ?c1 p2)"
    by (simp add: runCycle_def split: prod.splits)
  then show ?thesis using l2 by simp
qed

subsection \<open>A product's turn within the whole cycle\<close>

lemma checkLoop_pending_prefix:
  assumes ok: "\<forall>k. notifyOk w k"
  shows "\<exists>rest. pendingNotifications (fst (checkLoop w c ps)) = pendingNotifications c @ rest"
proof (induction ps arbitrary: c)
  case Nil
  then show ?case by simp
next
  case (Cons p ps)
  obtain r1 where r1: "pendingNotifications (fst (checkProduct w c p)) = pendingNotifications c @ r1"
    using checkProduct_ok[OF ok, of c p]
    by (cases "newDataOf w (fetchCache c) p") auto
  obtain r2 where r2: "pendingNotifications (fst (checkLoop w (fst (checkProduct w c p)) ps))
      = pendingNotifications (fst (checkProduct w c p)) @ r2"
    using Cons.IH by blast
  have "pendingNotifications (fst (checkLoop w c (p # ps))) = pendingNotifications c @ (r1 @ r2)"
    unfolding checkLoop_fst_Cons r2 r1 by simp
  then show ?case by blast
qed

lemma checkAllProducts_map:
  assumes "\<forall>k. storageOk w k"
  shows "notificationMap (fst (checkAllProducts w st))
     = notificationMap st @ pendingNotifications (fst (runCycle w (trackedProducts st)))"
proof -
  obtain c us where r: "runCycle w (trackedProducts st) = (c, us)"
    by (cases "runCycle w (trackedProducts st)")
  have e: "pendingNotifications c = []" if "trackedProducts st = []"
    using r that by (auto simp: runCycle_def emptyCycle_def)
  show ?thesis
    using assms r e by (auto simp: checkAllProducts_def writeNotificationMap_def Let_def)
qed

text \<open>The turn of the product at a position of the list, in the whole run.\<close>

lemma runCycle_upto: "fst (runCycle w (xs @ [p])) = fst (checkProduct w (fst (runCycle w xs)) p)"
  by (simp add: runCycle_def checkLoop_append split: prod.splits)

lemma runCycle_nth:
  "snd (runCycle w (xs @ p # ys)) ! length xs = snd (checkProduct w (fst (runCycle w xs)) p)"
proof -
  have "snd (runCycle w (xs @ p # ys))
      = snd (checkLoop w emptyCycle xs)
        @ snd (checkProduct w (fst (checkLoop w emptyCycle xs)) p)
          # snd (checkLoop w (fst (checkProduct w (fst (checkLoop w emptyCycle xs)) p)) ys)"
    by (simp add: runCycle_def checkLoop_append checkLoop_Cons del: checkLoop.simps)
  then show ?thesis
    using checkLoop_length[of w emptyCycle xs]
    by (simp add: runCycle_def nth_append del: checkLoop.simps)
qed

lemma runCycle_pending:
  assumes ok: "\<forall>k. notifyOk w k"
  shows "\<exists>rest. pendingNotifications (fst (runCycle w (xs @ p # ys)))
      = pendingNotifications (fst (runCycle w (xs @ [p]))) @ rest"
proof -
  have "fst (runCycle w (xs @ p # ys))
      = fst (checkLoop w (fst (checkProduct w (fst (runCycle w xs)) p)) ys)"
    by (simp add: runCycle_def checkLoop_append checkLoop_fst_Cons del: checkLoop.simps)
  then show ?thesis
    using checkLoop_pending_prefix[OF ok, of "fst (checkProduct w (fst (runCycle w xs)) p)" ys]
    by (simp add: runCycle_upto)
qed

lemma stored_item:
  assumes "\<forall>k. storageOk w k" and "trackedProducts st = xs @ p # ys"
  shows "trackedProducts (fst (checkAllProducts w st)) ! length xs
     = snd (checkProduct w (fst (runCycle w xs)) p)"
  using checkAllProducts_ok[OF assms(1), of st] assms(2) runCycle_nth[of w xs p ys] by simp


subsection \<open>Page fetches in a cycle\<close>

lemma two_products_log:
  assumes same: "baseUrlOf (url p2) = baseUrlOf (url p1)" and ok: "fetchOk w (url p1)"
  shows "\<exists>mf1 mf2. (mf1 = [] \<or> mf1 = [insertMD (url p1)])
     \<and> (mf2 = [] \<or> mf2 = [insertMD (url p2)])
     \<and> fetchedUrls (fetchLog (fst (runCycle w [p1, p2]))) = url p1 # mf1 @ mf2"
proof -
  let ?c1 = "fst (checkProduct w emptyCycle p1)"
  have e: "fetchCache emptyCycle = Map.empty" "fetchLog emptyCycle = []"
    by (simp_all add: emptyCycle_def)
  have hit: "fetchCache ?c1 (baseUrlOf (url p2)) \<noteq> None"
    unfolding checkProduct_cache same
    using cacheAfter_miss_ok[of "fetchCache emptyCycle" p1 w] ok by (simp add: e)
  obtain mf1 where m1: "mf1 = [] \<or> mf1 = [insertMD (url p1)]"
    and l1: "fetchedUrls (fetchLog ?c1) = url p1 # mf1"
    using checkProduct_log[of p1 w emptyCycle] by (auto simp: e)
  obtain mf2 where m2: "mf2 = [] \<or> mf2 = [insertMD (url p2)]"
    and l2: "fetchedUrls (fetchLog (fst (checkProduct w ?c1 p2))) = fetchedUrls (fetchLog ?c1) @ mf2"
    using checkProduct_log[of p2 w ?c1] hit by auto
  have "fst (runCycle w [p1, p2]) = fst (checkProduct w ?c1 p2)"
    by (simp add: runCycle_def split: prod.splits)
  then have "fetchedUrls (fetchLog (fst (runCycle w [p1, p2]))) = url p1 # mf1 @ mf2"
    using l1 l2 by simp
  then show ?thesis using m1 m2 by blast
qed

text \<open>
  C5 (amended): the loop's own page fetch (fetchProductStatus) succeeds at most once for a
  page key in a cycle: the successful page fetches of a cycle have pairwise different keys; a
  product whose key is in the cache issues no page fetch and works with the cached snapshot;
  so of two products with the same URL before the question mark, when the fetch for the
  first succeeds, the second issues no page fetch and reuses the first one's snapshot. The
  markdown check fetches outside the cache: every fetch of the cycle of the two is the page
  fetch for the first, followed by at most one fetch of the markdown URL of the first and at
  most one of the markdown URL of the second. When the shared page key contains
  \<^verbatim>\<open>/_/\<close>, the markdown URLs have another key, and the shared page is fetched exactly
  once in that cycle.
\<close>

theorem C5_page_fetch_dedup:
  "distinct (okFetchKeys w (fst (runCycle w items)))
   \<and> (fetchCache c (baseUrlOf (url p)) = Some nd \<longrightarrow> getNewData w c p = (c, Some nd))
   \<and> (baseUrlOf (url p2) = baseUrlOf (url p1) \<and> fetchOk w (url p1) \<longrightarrow>
        productFetches (fetchLog (fst (runCycle w [p1, p2]))) = [url p1]
        \<and> newDataOf w (fetchCache (fst (checkProduct w emptyCycle p1))) p2
            = newDataOf w Map.empty p1
        \<and> (\<exists>mf1 mf2. (mf1 = [] \<or> mf1 = [insertMD (url p1)])
              \<and> (mf2 = [] \<or> mf2 = [insertMD (url p2)])
              \<and> fetchedUrls (fetchLog (fst (runCycle w [p1, p2]))) = url p1 # mf1 @ mf2)
        \<and> (includesStr (baseUrlOf (url p1)) ''/_/'' \<longrightarrow>
              filter (\<lambda>u. baseUrlOf u = baseUrlOf (url p1))
                (fetchedUrls (fetchLog (fst (runCycle w [p1, p2])))) = [url p1]))"
  using product_fetch_dedup[of w items c p nd p2 p1] two_products_log[of p2 p1 w]
    two_products_one_fetch[of p2 p1 w]
  by blast

theorem C5_page_fetch_dedup_witness:
  "baseUrlOf (url blackS) = baseUrlOf (url blackM) \<and> fetchOk saleWorld (url blackM)
   \<and> includesStr (baseUrlOf (url blackM)) ''/_/''
   \<and> productFetches (fetchLog (fst (runCycle saleWorld [blackM, blackS]))) = [url blackM]
   \<and> filter (\<lambda>u. baseUrlOf u = baseUrlOf (url blackM))
        (fetchedUrls (fetchLog (fst (runCycle saleWorld [blackM, blackS])))) = [url blackM]
   \<and> fetchCache (fst (checkProduct saleWorld emptyCycle blackM)) (baseUrlOf (url blackS))
       = Some (parseProductHtml salePage blackM)
   \<and> getNewData saleWorld (fst (checkProduct saleWorld emptyCycle blackM)) blackS
       = (fst (checkProduct saleWorld emptyCycle blackM), Some (parseProductHtml salePage blackM))"
proof -
  have s: "baseUrlOf (url blackS) = baseUrlOf (url blackM)" by code_simp
  have o: "fetchOk saleWorld (url blackM)" by code_simp
  have i: "includesStr (baseUrlOf (url blackM)) ''/_/''" by code_simp
  have h: "fetchCache (fst (checkProduct saleWorld emptyCycle blackM)) (baseUrlOf (url blackS))
       = Some (parseProductHtml salePage blackM)"
    unfolding checkProduct_cache s
    by (simp add: cacheAfter_def newDataOf_def emptyCycle_def saleWorld_def responseOk_def)
  show ?thesis
    using s o i h
      C5_page_fetch_dedup[where w = saleWorld and ?p1.0 = blackM and ?p2.0 = blackS
        and c = "fst (checkProduct saleWorld emptyCycle blackM)" and p = blackS
        and nd = "parseProductHtml salePage blackM"]
    by blast
qed

text \<open>
  The claim as stated fails. A failed fetch is not cached, so the sibling fetches the page
  again in the same cycle. The markdown check is not cached either: two siblings fetch the
  same markdown page with success in one cycle, and for a URL without \<^verbatim>\<open>/_/\<close> the markdown
  URL is the product's own URL, so the shared page is fetched with success three times.
\<close>

theorem C5_counterexample:
  "baseUrlOf (url blackS) = baseUrlOf (url blackM)
   \<and> map baseUrlOf (productFetches (fetchLog (fst (runCycle offlineWorld [blackM, blackS]))))
       = [baseUrlOf (url blackM), baseUrlOf (url blackM)]
   \<and> baseUrlOf (url soldOutOnSale) = baseUrlOf (url blackM)
   \<and> fetchLog (fst (runCycle mdWorld [blackM, soldOutOnSale]))
       = [ProductFetch ''https://shop.lululemon.com/p/m/Shirt/_/prod1?color=1234&sz=M'',
          MarkdownFetch ''https://shop.lululemon.com/p/m/Shirt-MD/_/prod1?color=1234&sz=M'',
          MarkdownFetch ''https://shop.lululemon.com/p/m/Shirt-MD/_/prod1?color=1234&sz=M'']
   \<and> fetchOk mdWorld ''https://shop.lululemon.com/p/m/Shirt-MD/_/prod1?color=1234&sz=M''
   \<and> baseUrlOf (url plainS) = baseUrlOf (url plainM) \<and> fetchOk goneWorld (url plainM)
   \<and> fetchOk goneWorld (url plainS)
   \<and> fetchLog (fst (runCycle goneWorld [plainM, plainS]))
       = [ProductFetch (url plainM), MarkdownFetch (url plainM), MarkdownFetch (url plainS)]"
  by code_simp

subsection \<open>The stored sale flag\<close>




subsection \<open>The markdown transition in a cycle\<close>

text \<open>
  C1 (amended): a tracked product on a normal page whose URL carries the colour code C (a
  non-empty \<^verbatim>\<open>color\<close> parameter; the URL is neither a markdown nor an international
  URL), whose previous state lists C and is not sold out; the snapshot its turn of the cycle
  works with lacks C and is sold out; the markdown page, fetched with success, lists C and
  its SKU for the tracked size has sale price 40 and list price 60; notifications and
  storage are accepted. One run of checkAllProducts then sends for that product exactly one
  moved_to_markdown notification, with prices 40 and 60 and the synthesized URL, and no
  status_change notification, writes them to the notification map, and stores the product,
  at its place in the list, with stockStatus in_stock and markdownUrl the synthesized URL.
\<close>

theorem C1_markdown_cycle:
  "(\<forall>k. notifyOk w k) \<and> (\<forall>k. storageOk w k) \<and> trackedProducts st = xs @ p # ys
   \<and> newDataOf w (fetchCache (fst (runCycle w xs))) p = Some nd
   \<and> getColorCodeFromUrl (url p) = Some C \<and> C \<noteq> []
   \<and> \<not> includesStr (url p) ''-MD/'' \<and> \<not> includesStr (url p) ''.html''
   \<and> availableColors p = Some old \<and> list_ex (\<lambda>col. code col = C) old
   \<and> stockStatus p \<noteq> ''sold_out''
   \<and> \<not> list_ex (\<lambda>col. code col = C) (nd_availableColors nd)
   \<and> nd_stockStatus nd = ''sold_out''
   \<and> markdownQueryData w p = Some mdq \<and> colors mdq = Some cs
   \<and> list_ex (\<lambda>col. code col = C) cs
   \<and> skus mdq = Some sks \<and> find (skuMatches p C) sks = Some s \<and> price s = Some pr
   \<and> skuSalePrice pr = Some 40 \<and> skuListPrice pr = Some 60
   \<longrightarrow> snd (checkAllProducts w st) = None
      \<and> (\<exists>rest. notificationMap (fst (checkAllProducts w st))
            = notificationMap st @ pendingNotifications (fst (runCycle w (xs @ [p]))) @ rest)
      \<and> filter (\<lambda>n. isMovedToMarkdown (notifChange n))
          (drop (length (pendingNotifications (fst (runCycle w xs))))
             (pendingNotifications (fst (runCycle w (xs @ [p])))))
        = [\<lparr>notifChange = MovedToMarkdown (Known 40) (Known 60),
            notifUrl = discountUrlOf p C mdq\<rparr>]
      \<and> filter (\<lambda>n. isStatusChange (notifChange n))
          (drop (length (pendingNotifications (fst (runCycle w xs))))
             (pendingNotifications (fst (runCycle w (xs @ [p]))))) = []
      \<and> length (trackedProducts (fst (checkAllProducts w st))) = length (xs @ p # ys)
      \<and> stockStatus (trackedProducts (fst (checkAllProducts w st)) ! length xs) = ''in_stock''
      \<and> markdownUrl (trackedProducts (fst (checkAllProducts w st)) ! length xs)
          = Some (discountUrlOf p C mdq)"
proof (intro impI, elim conjE)
  assume ok: "\<forall>k. notifyOk w k" and sok: "\<forall>k. storageOk w k"
    and tr: "trackedProducts st = xs @ p # ys"
    and h: "newDataOf w (fetchCache (fst (runCycle w xs))) p = Some nd"
      "getColorCodeFromUrl (url p) = Some C" "C \<noteq> []"
      "\<not> includesStr (url p) ''-MD/''" "\<not> includesStr (url p) ''.html''"
      "availableColors p = Some old" "list_ex (\<lambda>col. code col = C) old"
      "stockStatus p \<noteq> ''sold_out''"
      "\<not> list_ex (\<lambda>col. code col = C) (nd_availableColors nd)"
      "nd_stockStatus nd = ''sold_out''"
      "markdownQueryData w p = Some mdq" "colors mdq = Some cs"
      "list_ex (\<lambda>col. code col = C) cs"
      "skus mdq = Some sks" "find (skuMatches p C) sks = Some s" "price s = Some pr"
      "skuSalePrice pr = Some 40" "skuListPrice pr = Some 60"
  let ?c = "fst (runCycle w xs)"
  have turn: "filter (\<lambda>n. isMovedToMarkdown (notifChange n))
          (drop (length (pendingNotifications ?c))
             (pendingNotifications (fst (checkProduct w ?c p))))
        = [\<lparr>notifChange = MovedToMarkdown (Known 40) (Known 60),
            notifUrl = discountUrlOf p C mdq\<rparr>]
      \<and> filter (\<lambda>n. isStatusChange (notifChange n))
          (drop (length (pendingNotifications ?c))
             (pendingNotifications (fst (checkProduct w ?c p)))) = []
      \<and> stockStatus (snd (checkProduct w ?c p)) = ''in_stock''
      \<and> markdownUrl (snd (checkProduct w ?c p)) = Some (discountUrlOf p C mdq)"
    using markdown_turn[of w ?c p nd C old mdq cs sks s pr] ok h by blast
  have n: "snd (checkAllProducts w st) = None"
    using checkAllProducts_ok[OF sok, of st] by simp
  have l: "length (trackedProducts (fst (checkAllProducts w st))) = length (xs @ p # ys)"
    using checkAllProducts_ok[OF sok, of st] tr checkLoop_length[of w emptyCycle "xs @ p # ys"]
    by (simp add: runCycle_def del: checkLoop.simps)
  obtain rest where "pendingNotifications (fst (runCycle w (xs @ p # ys)))
      = pendingNotifications (fst (runCycle w (xs @ [p]))) @ rest"
    using runCycle_pending[OF ok, of xs p ys] by blast
  then have m: "\<exists>rest. notificationMap (fst (checkAllProducts w st))
            = notificationMap st @ pendingNotifications (fst (runCycle w (xs @ [p]))) @ rest"
    unfolding checkAllProducts_map[OF sok] tr by simp
  show "snd (checkAllProducts w st) = None
      \<and> (\<exists>rest. notificationMap (fst (checkAllProducts w st))
            = notificationMap st @ pendingNotifications (fst (runCycle w (xs @ [p]))) @ rest)
      \<and> filter (\<lambda>n. isMovedToMarkdown (notifChange n))
          (drop (length (pendingNotifications (fst (runCycle w xs))))
             (pendingNotifications (fst (runCycle w (xs @ [p])))))
        = [\<lparr>notifChange = MovedToMarkdown (Known 40) (Known 60),
            notifUrl = discountUrlOf p C mdq\<rparr>]
      \<and> filter (\<lambda>n. isStatusChange (notifChange n))
          (drop (length (pendingNotifications (fst (runCycle w xs))))
             (pendingNotifications (fst (runCycle w (xs @ [p]))))) = []
      \<and> length (trackedProducts (fst (checkAllProducts w st))) = length (xs @ p # ys)
      \<and> stockStatus (trackedProducts (fst (checkAllProducts w st)) ! length xs) = ''in_stock''
      \<and> markdownUrl (trackedProducts (fst (checkAllProducts w st)) ! length xs)
          = Some (discountUrlOf p C mdq)"
    unfolding stored_item[OF sok tr] runCycle_upto
    using turn n l m[unfolded runCycle_upto] by blast
qed

theorem C1_markdown_cycle_witness:
  "stockStatus blackM = ''in_stock''
   \<and> nd_stockStatus (parseProductHtml gonePage blackM) = ''sold_out''
   \<and> snd (checkAllProducts mdWorld (emptyStore\<lparr>trackedProducts := [blackM]\<rparr>)) = None
   \<and> filter (\<lambda>n. isMovedToMarkdown (notifChange n))
        (pendingNotifications (fst (runCycle mdWorld [blackM])))
     = [\<lparr>notifChange = MovedToMarkdown (Known 40) (Known 60),
         notifUrl = ''https://shop.lululemon.com/p/m/Shirt-MD/_/prod9?color=1234&sz=M''\<rparr>]
   \<and> filter (\<lambda>n. isStatusChange (notifChange n))
        (pendingNotifications (fst (runCycle mdWorld [blackM]))) = []
   \<and> stockStatus (trackedProducts (fst (checkAllProducts mdWorld
        (emptyStore\<lparr>trackedProducts := [blackM]\<rparr>))) ! 0) = ''in_stock''
   \<and> markdownUrl (trackedProducts (fst (checkAllProducts mdWorld
        (emptyStore\<lparr>trackedProducts := [blackM]\<rparr>))) ! 0)
       = Some ''https://shop.lululemon.com/p/m/Shirt-MD/_/prod9?color=1234&sz=M''"
proof -
  let ?nd = "parseProductHtml gonePage blackM"
  let ?s = "\<lparr>skuColorCode = Some ''1234'', skuSize = ''M'', available = True,
        price = Some \<lparr>listPrice = Str (Some 60), salePrice = Str (Some 40)\<rparr>\<rparr>"
  let ?st = "emptyStore\<lparr>trackedProducts := [blackM]\<rparr>"
  have h1: "(\<forall>k. notifyOk mdWorld k) \<and> (\<forall>k. storageOk mdWorld k)" by (simp add: mdWorld_def)
  have h0: "trackedProducts ?st = [] @ blackM # []" by simp
  have e: "fst (runCycle mdWorld []) = emptyCycle" by (simp add: runCycle_def)
  have h2: "newDataOf mdWorld (fetchCache emptyCycle) blackM = Some ?nd" by code_simp
  have h3: "getColorCodeFromUrl (url blackM) = Some ''1234'' \<and> ''1234'' \<noteq> []
      \<and> \<not> includesStr (url blackM) ''-MD/'' \<and> \<not> includesStr (url blackM) ''.html''"
    by code_simp
  have h4: "availableColors blackM = Some [\<lparr>code = ''1234'', colorName = ''Black''\<rparr>]
      \<and> list_ex (\<lambda>col. code col = ''1234'') [\<lparr>code = ''1234'', colorName = ''Black''\<rparr>]
      \<and> stockStatus blackM \<noteq> ''sold_out''"
    by code_simp
  have h5: "\<not> list_ex (\<lambda>col. code col = ''1234'') (nd_availableColors ?nd)
      \<and> nd_stockStatus ?nd = ''sold_out''"
    by code_simp
  have h6: "markdownQueryData mdWorld blackM = Some mdQuery
      \<and> colors mdQuery = Some [\<lparr>code = ''1234'', colorName = ''Black''\<rparr>]
      \<and> list_ex (\<lambda>col. code col = ''1234'') [\<lparr>code = ''1234'', colorName = ''Black''\<rparr>]
      \<and> skus mdQuery = Some [?s]"
    by code_simp
  have h7: "find (skuMatches blackM ''1234'') [?s] = Some ?s
      \<and> price ?s = Some \<lparr>listPrice = Str (Some 60), salePrice = Str (Some 40)\<rparr>
      \<and> skuSalePrice \<lparr>listPrice = Str (Some 60), salePrice = Str (Some 40)\<rparr> = Some 40
      \<and> skuListPrice \<lparr>listPrice = Str (Some 60), salePrice = Str (Some 40)\<rparr> = Some 60"
    by code_simp
  have U: "discountUrlOf blackM ''1234'' mdQuery
      = ''https://shop.lululemon.com/p/m/Shirt-MD/_/prod9?color=1234&sz=M''"
    by code_simp
  have p0: "pendingNotifications emptyCycle = []" by (simp add: emptyCycle_def)
  have s: "stockStatus blackM = ''in_stock''" by code_simp
  show ?thesis
    using h0 h1 h2 h3 h4 h5 h6 h7 s
      C1_markdown_cycle[where w = mdWorld and st = ?st and xs = "[]" and ys = "[]"
        and p = blackM and nd = ?nd
        and C = "''1234''" and old = "[\<lparr>code = ''1234'', colorName = ''Black''\<rparr>]"
        and mdq = mdQuery and cs = "[\<lparr>code = ''1234'', colorName = ''Black''\<rparr>]"
        and sks = "[?s]" and s = ?s
        and pr = "\<lparr>listPrice = Str (Some 60), salePrice = Str (Some 40)\<rparr>"]
    unfolding U e p0 by simp
qed

text \<open>
  The claim as stated fails: a product tracked from a URL without a colour parameter meets
  its conditions (its previous state lists Black and is in stock, the fresh snapshot lacks
  Black and is sold out, the markdown page offers Black at 40, list 60), and the cycle
  sends a status_change to sold_out and no moved_to_markdown, and stores the product sold
  out, with no markdownUrl.
\<close>

theorem C1_counterexample:
  "color noColorParam = ''Black'' \<and> stockStatus noColorParam = ''in_stock''
   \<and> availableColors noColorParam = Some [\<lparr>code = ''1234'', colorName = ''Black''\<rparr>]
   \<and> fetch noParamWorld (url noColorParam) = Http 200 soldOutGonePage
   \<and> nd_availableColors (parseProductHtml soldOutGonePage noColorParam)
       = [\<lparr>code = ''5678'', colorName = ''White''\<rparr>]
   \<and> nd_stockStatus (parseProductHtml soldOutGonePage noColorParam) = ''sold_out''
   \<and> fetch noParamWorld (insertMD (url noColorParam)) = Http 200 mdPage
   \<and> colors mdQuery = Some [\<lparr>code = ''1234'', colorName = ''Black''\<rparr>]
   \<and> skus mdQuery = Some [\<lparr>skuColorCode = Some ''1234'', skuSize = ''M'', available = True,
        price = Some \<lparr>listPrice = Str (Some 60), salePrice = Str (Some 40)\<rparr>\<rparr>]
   \<and> getColorCodeFromUrl (url noColorParam) = None
   \<and> snd (checkAllProducts noParamWorld (emptyStore\<lparr>trackedProducts := [noColorParam]\<rparr>))
       = None
   \<and> notificationMap (fst (checkAllProducts noParamWorld
         (emptyStore\<lparr>trackedProducts := [noColorParam]\<rparr>)))
       = [\<lparr>notifChange = StatusChange ''in_stock'' ''sold_out'',
           notifUrl = ''https://shop.lululemon.com/p/m/Shirt/_/prod1''\<rparr>,
          \<lparr>notifChange = NewColor ''White'',
           notifUrl = ''https://shop.lululemon.com/p/m/Shirt/_/prod1''\<rparr>]
   \<and> map stockStatus (trackedProducts (fst (checkAllProducts noParamWorld
         (emptyStore\<lparr>trackedProducts := [noColorParam]\<rparr>)))) = [''sold_out'']
   \<and> map markdownUrl (trackedProducts (fst (checkAllProducts noParamWorld
         (emptyStore\<lparr>trackedProducts := [noColorParam]\<rparr>)))) = [None]"
  by code_simp

end
